theory Spec2Isabelle
  imports Main
begin

section \<open>Python strings\<close>

text \<open>
  A Python \<open>str\<close> is a sequence of Unicode code points, and \<open>len\<close>, \<open>in\<close>, slicing and
  the \<open>re\<close> module all work on code points. A string is therefore a list of code points
  (natural numbers); \<open>str\<close> turns an ASCII literal of the source into such a list.
\<close>

type_synonym pystr = "nat list"

abbreviation ord :: "char \<Rightarrow> nat" where
  "ord c \<equiv> of_char c"

definition str :: "string \<Rightarrow> pystr" where
  "str s = map of_char s"

text \<open>
  The code points for which \<open>str.isspace\<close> holds; \<open>str.strip()\<close> without argument and the
  class \<open>\s\<close> of a \<open>str\<close> pattern both use this set:
  U+0009..U+000D, U+001C..U+0020, U+0085, U+00A0, U+1680, U+2000..U+200A, U+2028, U+2029,
  U+202F, U+205F, U+3000.
\<close>

definition is_space :: "nat \<Rightarrow> bool" where
  "is_space c \<longleftrightarrow>
     (9 \<le> c \<and> c \<le> 13) \<or> (28 \<le> c \<and> c \<le> 32) \<or> c = 133 \<or> c = 160 \<or> c = 5760 \<or>
     (8192 \<le> c \<and> c \<le> 8202) \<or> c = 8232 \<or> c = 8233 \<or> c = 8239 \<or> c = 8287 \<or> c = 12288"

definition strip :: "pystr \<Rightarrow> pystr" where
  "strip s = rev (dropWhile is_space (rev (dropWhile is_space s)))"

definition is_lower_az :: "nat \<Rightarrow> bool" where
  "is_lower_az c \<longleftrightarrow> ord CHR ''a'' \<le> c \<and> c \<le> ord CHR ''z''"

definition is_upper_az :: "nat \<Rightarrow> bool" where
  "is_upper_az c \<longleftrightarrow> ord CHR ''A'' \<le> c \<and> c \<le> ord CHR ''Z''"

definition is_digit_09 :: "nat \<Rightarrow> bool" where
  "is_digit_09 c \<longleftrightarrow> ord CHR ''0'' \<le> c \<and> c \<le> ord CHR ''9''"

text \<open>\<open>needle in hay\<close>: \<open>needle\<close> occurs as a contiguous piece of \<open>hay\<close>.\<close>

fun contains :: "pystr \<Rightarrow> pystr \<Rightarrow> bool" where
  "contains [] needle = (needle = [])"
| "contains (c # cs) needle =
     (take (length needle) (c # cs) = needle \<or> contains cs needle)"

section \<open>utils.py: slugify\<close>

text \<open>
  \<^verbatim>\<open>cleaned = re.sub(r"[^a-zA-Z0-9\s-]", "", text).strip().lower()\<close>
  \<^verbatim>\<open>slug = re.sub(r"[\s-]+", "-", cleaned)\<close>
  \<^verbatim>\<open>return slug or "untitled"\<close>

  The first substitution deletes every code point outside the class, so it is a filter.
  What is left holds ASCII letters, ASCII digits, hyphens and white space only; on such a
  text \<open>str.lower\<close> changes exactly the letters \<open>A\<close> to \<open>Z\<close>, which is what \<open>lower_cleaned\<close>
  does. The second substitution replaces every maximal run of white space and hyphens by
  one hyphen.
\<close>

definition slug_keep :: "nat \<Rightarrow> bool" where
  "slug_keep c \<longleftrightarrow>
     is_lower_az c \<or> is_upper_az c \<or> is_digit_09 c \<or> is_space c \<or> c = ord CHR ''-''"

definition lower_char :: "nat \<Rightarrow> nat" where
  "lower_char c = (if is_upper_az c then c + 32 else c)"

definition lower_cleaned :: "pystr \<Rightarrow> pystr" where
  "lower_cleaned s = map lower_char s"

definition slug_sep :: "nat \<Rightarrow> bool" where
  "slug_sep c \<longleftrightarrow> is_space c \<or> c = ord CHR ''-''"

function collapse_seps :: "pystr \<Rightarrow> pystr" where
  "collapse_seps [] = []"
| "collapse_seps (c # cs) =
     (if slug_sep c then ord CHR ''-'' # collapse_seps (dropWhile slug_sep cs)
      else c # collapse_seps cs)"
  by pat_completeness auto
termination
  by (relation "measure length") (auto simp: length_dropWhile_le le_imp_less_Suc)

definition slugify :: "pystr \<Rightarrow> pystr" where
  "slugify text =
     (let cleaned = lower_cleaned (strip (filter slug_keep text));
          slug = collapse_seps cleaned
      in if slug = [] then str ''untitled'' else slug)"

section \<open>Properties of slugify\<close>

definition slug_char :: "nat \<Rightarrow> bool" where
  "slug_char c \<longleftrightarrow> is_lower_az c \<or> is_digit_09 c \<or> c = ord CHR ''-''"

text \<open>No two hyphens next to each other.\<close>

fun single_hyphens :: "pystr \<Rightarrow> bool" where
  "single_hyphens (a # b # cs) = (\<not> (a = 45 \<and> b = 45) \<and> single_hyphens (b # cs))"
| "single_hyphens _ = True"


section \<open>Regular expressions of the \<open>re\<close> module\<close>

text \<open>
  The patterns of the source are \<open>str\<close> patterns, so \<open>\w\<close>, \<open>\d\<close> and case-insensitive
  matching follow the Unicode character database of the interpreter. For ASCII code points
  the classes are written out; for the others the database is a parameter:
  \<open>u_alnum c\<close> says that \<open>c\<close> is alphanumeric (\<open>\w\<close> is that or \<open>_\<close>), \<open>u_decimal c\<close> that it
  is a decimal digit (\<open>\d\<close>), and \<open>u_caseless p c\<close> that the ASCII letter \<open>p\<close> of a pattern
  matches \<open>c\<close> under \<open>re.IGNORECASE\<close>.
\<close>

record unicode_db =
  u_alnum :: "nat \<Rightarrow> bool"
  u_decimal :: "nat \<Rightarrow> bool"
  u_caseless :: "nat \<Rightarrow> nat \<Rightarrow> bool"

text \<open>The database restricted to ASCII: no other code point is a letter or a digit.\<close>

definition ascii_only :: unicode_db where
  "ascii_only = \<lparr>u_alnum = (\<lambda>c. False), u_decimal = (\<lambda>c. False), u_caseless = (\<lambda>p c. False)\<rparr>"

definition is_word :: "unicode_db \<Rightarrow> nat \<Rightarrow> bool" where
  "is_word U c \<longleftrightarrow>
     (if c < 128 then is_lower_az c \<or> is_upper_az c \<or> is_digit_09 c \<or> c = ord CHR ''_''
      else u_alnum U c)"

definition is_decimal :: "unicode_db \<Rightarrow> nat \<Rightarrow> bool" where
  "is_decimal U c \<longleftrightarrow> (if c < 128 then is_digit_09 c else u_decimal U c)"

text \<open>A literal character \<open>p\<close> of a pattern (lower case in the source) against \<open>c\<close>, ignoring case.\<close>

definition ci_match :: "unicode_db \<Rightarrow> nat \<Rightarrow> nat \<Rightarrow> bool" where
  "ci_match U p c \<longleftrightarrow>
     (if c < 128 \<or> \<not> is_lower_az p then lower_char c = p else u_caseless U p c)"

text \<open>The literal \<open>w\<close> of a pattern at the start of \<open>s\<close>, ignoring case.\<close>

fun ci_literal :: "unicode_db \<Rightarrow> pystr \<Rightarrow> pystr \<Rightarrow> bool" where
  "ci_literal U [] s = True"
| "ci_literal U (p # ps) [] = False"
| "ci_literal U (p # ps) (c # cs) = (if ci_match U p c then ci_literal U ps cs else False)"

text \<open>
  \<open>\b\<close> between two neighbours: exactly one of them is a word character; the start and
  the end of the text count as a non-word neighbour (\<open>None\<close>).
\<close>

definition opt_word :: "unicode_db \<Rightarrow> nat option \<Rightarrow> bool" where
  "opt_word U x = (case x of None \<Rightarrow> False | Some c \<Rightarrow> is_word U c)"

definition boundary :: "unicode_db \<Rightarrow> nat option \<Rightarrow> nat option \<Rightarrow> bool" where
  "boundary U a b \<longleftrightarrow> opt_word U a \<noteq> opt_word U b"

definition first_char :: "pystr \<Rightarrow> nat option" where
  "first_char s = (case s of [] \<Rightarrow> None | c # _ \<Rightarrow> Some c)"

text \<open>
  \<open>\b(w)\b\<close> at the start of \<open>s\<close>, where \<open>prev\<close> is the character before \<open>s\<close>: the word \<open>w\<close>
  matches there, with a boundary before it and after it.
\<close>

definition word_here :: "unicode_db \<Rightarrow> nat option \<Rightarrow> pystr \<Rightarrow> pystr \<Rightarrow> bool" where
  "word_here U prev s w =
     (if boundary U prev (first_char s)
      then if ci_literal U w s
           then boundary U (first_char (drop (length w - 1) s)) (first_char (drop (length w) s))
           else False
      else False)"

text \<open>\<open>\d+%\<close> somewhere in a line: a decimal digit directly before a percent sign.\<close>

fun digit_percent :: "unicode_db \<Rightarrow> pystr \<Rightarrow> bool" where
  "digit_percent U (a # b # cs) =
     (if b = ord CHR ''%'' \<and> is_decimal U a then True else digit_percent U (b # cs))"
| "digit_percent U _ = False"

definition not_newline :: "nat \<Rightarrow> bool" where
  "not_newline c \<longleftrightarrow> c \<noteq> 10"

text \<open>
  \<^verbatim>\<open>.*\b(achieved|increased|grew|boosted)\b.*\d+%\<close> from the start of \<open>s\<close>: \<open>.\<close> does not
  match a newline, so the verb is looked for up to the end of the line, and the percentage
  in what is left of that line after the verb.
\<close>

definition claim_verbs :: "pystr list" where
  "claim_verbs = [str ''achieved'', str ''increased'', str ''grew'', str ''boosted'']"

fun verb_then_percent :: "unicode_db \<Rightarrow> nat option \<Rightarrow> pystr \<Rightarrow> bool" where
  "verb_then_percent U prev [] = False"
| "verb_then_percent U prev (c # cs) =
     (if list_ex (\<lambda>w. if word_here U prev (c # cs) w
                        then digit_percent U (takeWhile not_newline (drop (length w) (c # cs)))
                        else False)
           claim_verbs
      then True
      else if c = 10 then False
      else verb_then_percent U (Some c) cs)"

text \<open>
  \<^verbatim>\<open>re.search(r"\b(we|our team|evolvra)\b.*\b(achieved|increased|grew|boosted)\b.*\d+%",\<close>
  \<^verbatim>\<open>          article_markdown, re.IGNORECASE)\<close> finds a match or not; only that is used.
\<close>

definition claim_subjects :: "pystr list" where
  "claim_subjects = [str ''we'', str ''our team'', str ''evolvra'']"

fun fake_claim_from :: "unicode_db \<Rightarrow> nat option \<Rightarrow> pystr \<Rightarrow> bool" where
  "fake_claim_from U prev [] = False"
| "fake_claim_from U prev (c # cs) =
     (if list_ex (\<lambda>w. if word_here U prev (c # cs) w
                        then verb_then_percent U (first_char (drop (length w - 1) (c # cs)))
                               (drop (length w) (c # cs))
                        else False)
           claim_subjects
      then True
      else fake_claim_from U (Some c) cs)"

definition fake_claim :: "unicode_db \<Rightarrow> pystr \<Rightarrow> bool" where
  "fake_claim U article = fake_claim_from U None article"

text \<open>
  \<^verbatim>\<open>re.search(label + r"\s*(.+)", text)\<close> for a literal \<open>label\<close>, giving \<open>group(1)\<close>.
  After the label \<open>\s*\<close> takes all the white space there is, newlines included, and \<open>.+\<close>
  the rest of the line that starts there. When only white space follows the label up to
  the end of the text, \<open>\s*\<close> gives back characters until \<open>.+\<close> can take one: the last
  one that is not a newline, and \<open>.+\<close> stops after it. When there is none, the search goes
  on with the next occurrence of the label.
\<close>

definition after_label :: "pystr \<Rightarrow> pystr option" where
  "after_label t =
     (let r = dropWhile is_space t
      in if r \<noteq> [] then Some (takeWhile not_newline r)
         else (case dropWhile (\<lambda>c. c = 10) (rev t) of [] \<Rightarrow> None | c # _ \<Rightarrow> Some [c]))"

fun re_search_label :: "pystr \<Rightarrow> pystr \<Rightarrow> pystr option" where
  "re_search_label label [] = None"
| "re_search_label label (c # cs) =
     (if take (length label) (c # cs) = label
      then (case after_label (drop (length label) (c # cs)) of
              Some g \<Rightarrow> Some g
            | None \<Rightarrow> re_search_label label cs)
      else re_search_label label cs)"

text \<open>\<^verbatim>\<open>re.split(r"[,;]", raw)\<close>: the pieces between the separators, empty ones included.\<close>

fun split_on :: "(nat \<Rightarrow> bool) \<Rightarrow> pystr \<Rightarrow> pystr list" where
  "split_on P [] = [[]]"
| "split_on P (c # cs) =
     (if P c then [] # split_on P cs
      else (case split_on P cs of [] \<Rightarrow> [[c]] | p # ps \<Rightarrow> (c # p) # ps))"

definition comma_or_semicolon :: "nat \<Rightarrow> bool" where
  "comma_or_semicolon c \<longleftrightarrow> c = ord CHR '','' \<or> c = ord CHR '';''"

section \<open>writer.py: ContentWriter\<close>

definition REQUIRED_HEADINGS :: "pystr list" where
  "REQUIRED_HEADINGS =
     [str ''# '', str ''## Hook'', str ''## Context'', str ''## What to do next'',
      str ''## Conclusion'']"

text \<open>\<open>_extract_meta\<close>: the first five keywords and the description.\<close>

definition extract_meta :: "pystr \<Rightarrow> pystr list \<times> pystr" where
  "extract_meta article_markdown =
     (let keyword_match = re_search_label (str ''SEO Keywords:'') article_markdown;
          description_match = re_search_label (str ''Meta Description:'') article_markdown;
          keywords = (case keyword_match of
                        None \<Rightarrow> []
                      | Some raw \<Rightarrow> filter (\<lambda>item. item \<noteq> [])
                                      (map strip (split_on comma_or_semicolon raw)));
          description = (case description_match of None \<Rightarrow> [] | Some g \<Rightarrow> strip g)
      in (take 5 keywords, description))"

text \<open>
  \<open>_extract_social\<close>: \<^verbatim>\<open>re.search(r"Social Snippets:\s*(.*)", text, re.DOTALL)\<close> matches at the
  first occurrence of the label, and its group is everything after the white space that
  follows the label.
\<close>

fun re_search_rest :: "pystr \<Rightarrow> pystr \<Rightarrow> pystr option" where
  "re_search_rest label [] = (if label = [] then Some [] else None)"
| "re_search_rest label (c # cs) =
     (if take (length label) (c # cs) = label
      then Some (dropWhile is_space (drop (length label) (c # cs)))
      else re_search_rest label cs)"

definition extract_social :: "pystr \<Rightarrow> pystr" where
  "extract_social article_markdown =
     (case re_search_rest (str ''Social Snippets:'') article_markdown of
        Some g \<Rightarrow> strip g
      | None \<Rightarrow> [])"

text \<open>\<open>str.count\<close>: occurrences that do not overlap, counted from the left.\<close>

function count_sub :: "pystr \<Rightarrow> pystr \<Rightarrow> nat" where
  "count_sub hay needle =
     (if needle = [] then length hay + 1
      else (case hay of
              [] \<Rightarrow> 0
            | c # cs \<Rightarrow>
                if take (length needle) hay = needle
                then 1 + count_sub (drop (length needle) hay) needle
                else count_sub cs needle))"
  by pat_completeness auto
termination
proof (relation "measure (\<lambda>(hay, needle). length hay)", goal_cases)
  case 1
  show ?case by simp
next
  case (2 hay needle c cs)
  then show ?case by (cases needle) auto
next
  case (3 hay needle c cs)
  then show ?case by simp
qed

declare count_sub.simps [simp del]

text \<open>
  The literal of line 125 of \<open>writer.py\<close>. The file holds the three code points
  U+00E2, U+20AC, U+201D there: an em dash (U+2014) whose UTF-8 bytes were read as
  Windows-1252.
\<close>

definition banned_mark :: pystr where
  "banned_mark = [226, 8364, 8221]"

definition em_dash :: nat where
  "em_dash = 8212"

definition heading_errors :: "pystr \<Rightarrow> pystr list" where
  "heading_errors article_markdown =
     concat (map (\<lambda>heading. if \<not> contains article_markdown heading
                             then [str ''Missing heading: '' @ heading] else [])
               REQUIRED_HEADINGS)"

definition self_check :: "unicode_db \<Rightarrow> pystr \<Rightarrow> pystr list" where
  "self_check U article_markdown =
     (if contains article_markdown banned_mark then [str ''Contains em dash.''] else [])
     @ heading_errors article_markdown
     @ (if count_sub article_markdown (str ''## '') < 6
        then [str ''Not enough section headings.''] else [])
     @ (if \<not> contains article_markdown (str ''- [ ]'') \<and> \<not> contains article_markdown (str ''- '')
        then [str ''Checklist missing.''] else [])
     @ (if fake_claim U article_markdown
        then [str ''Potential fabricated percentage claim.''] else [])"

text \<open>The article of \<open>tests/test_basic.py\<close> (\<open>test_markdown_section_presence\<close>).\<close>

definition sample_article :: pystr where
  "sample_article =
     str ''\<newline># Title\<newline>## Hook\<newline>Opening hook.\<newline>## Context\<newline>Context section.\<newline>## Section One\<newline>Details.\<newline>## Section Two\<newline>Details.\<newline>## Section Three\<newline>Details.\<newline>## What to do next\<newline>- Do this\<newline>- Do that\<newline>## Conclusion\<newline>Wrap-up.\<newline>SEO Keywords: one, two, three, four, five\<newline>Meta Description: ''
     @ replicate 155 (ord CHR ''x'')
     @ str ''\<newline>Social Snippets:\<newline>LinkedIn: ...\<newline>''"


text \<open>
  Leaving out a heading marker: \<^verbatim>\<open>article.replace(marker, "", 1)\<close>, the text without the
  first occurrence of the marker.
\<close>

fun remove_first :: "pystr \<Rightarrow> pystr \<Rightarrow> pystr" where
  "remove_first needle [] = []"
| "remove_first needle (c # cs) =
     (if take (length needle) (c # cs) = needle then drop (length needle) (c # cs)
      else c # remove_first needle cs)"



section \<open>Python values, dictionaries and exceptions\<close>

text \<open>
  The values a meta dictionary or a decoded JSON document holds: \<open>None\<close>, booleans,
  integers, strings, lists and dictionaries with string keys. A dictionary is the list of
  its items in insertion order, with no key twice. Floating point numbers are left out.
\<close>

datatype pyval =
    PNone
  | PBool bool
  | PInt int
  | PStr pystr
  | PList "pyval list"
  | PDict "(pystr \<times> pyval) list"

type_synonym pydict = "(pystr \<times> pyval) list"

datatype pyerror =
    TypeError
  | AttributeError
  | ValueError "pystr list"
  | ValidationError
  | JSONDecodeError

text \<open>\<open>d.get(key, default)\<close>, \<open>d[key] = value\<close> and \<open>del d[key]\<close>.\<close>

definition dict_get :: "pydict \<Rightarrow> pystr \<Rightarrow> pyval \<Rightarrow> pyval" where
  "dict_get d key dflt = (case map_of d key of None \<Rightarrow> dflt | Some v \<Rightarrow> v)"

fun dict_set :: "pydict \<Rightarrow> pystr \<Rightarrow> pyval \<Rightarrow> pydict" where
  "dict_set [] key v = [(key, v)]"
| "dict_set ((k, w) # d) key v = (if k = key then (k, v) # d else (k, w) # dict_set d key v)"

definition dict_del :: "pydict \<Rightarrow> pystr \<Rightarrow> pydict" where
  "dict_del d key = filter (\<lambda>(k, v). k \<noteq> key) d"

text \<open>\<open>len(x)\<close>: defined for strings, lists and dictionaries, a \<open>TypeError\<close> otherwise.\<close>

fun py_len :: "pyval \<Rightarrow> pyerror + nat" where
  "py_len (PStr s) = Inr (length s)"
| "py_len (PList xs) = Inr (length xs)"
| "py_len (PDict d) = Inr (length d)"
| "py_len _ = Inl TypeError"

text \<open>The truth value of \<open>x\<close> in \<open>not x\<close>.\<close>

fun truthy :: "pyval \<Rightarrow> bool" where
  "truthy PNone = False"
| "truthy (PBool b) = b"
| "truthy (PInt n) = (n \<noteq> 0)"
| "truthy (PStr s) = (s \<noteq> [])"
| "truthy (PList xs) = (xs \<noteq> [])"
| "truthy (PDict d) = (d \<noteq> [])"

section \<open>writer.py: validate_meta\<close>

definition validate_meta :: "pydict \<Rightarrow> pyerror + pystr list" where
  "validate_meta meta =
     (case py_len (dict_get meta (str ''keywords'') (PList [])) of
        Inl e \<Rightarrow> Inl e
      | Inr n \<Rightarrow>
          (case py_len (dict_get meta (str ''description'') (PStr [])) of
             Inl e \<Rightarrow> Inl e
           | Inr m \<Rightarrow>
               Inr ((if n \<noteq> 5 then [str ''Keywords must include 5 items.''] else [])
                    @ (if \<not> (155 \<le> m \<and> m \<le> 160)
                       then [str ''Description must be 155-160 characters.''] else [])
                    @ (if \<not> truthy (dict_get meta (str ''title'') PNone)
                       then [str ''Title missing.''] else []))))"

section \<open>utils.py: META_SCHEMA, and its validation by \<open>jsonschema.validate\<close>\<close>

text \<open>
  A schema with the keywords that \<open>META_SCHEMA\<close> uses, and what JSON Schema (draft 7) says
  each of them means. A keyword that is about one type of instance holds of every instance
  of another type.
\<close>

datatype json_type = TString | TArray | TObject

datatype schema =
  Schema
    (s_type: "json_type option")
    (s_properties: "(pystr \<times> schema) list")
    (s_required: "pystr list")
    (s_additionalProperties: bool)
    (s_items: "schema option")
    (s_minItems: "nat option")
    (s_maxItems: "nat option")
    (s_minLength: "nat option")
    (s_maxLength: "nat option")

definition has_type :: "json_type \<Rightarrow> pyval \<Rightarrow> bool" where
  "has_type t v =
     (case (t, v) of
        (TString, PStr _) \<Rightarrow> True
      | (TArray, PList _) \<Rightarrow> True
      | (TObject, PDict _) \<Rightarrow> True
      | _ \<Rightarrow> False)"

definition at_least :: "nat option \<Rightarrow> nat \<Rightarrow> bool" where
  "at_least bound n = (case bound of None \<Rightarrow> True | Some b \<Rightarrow> b \<le> n)"

definition at_most :: "nat option \<Rightarrow> nat \<Rightarrow> bool" where
  "at_most bound n = (case bound of None \<Rightarrow> True | Some b \<Rightarrow> n \<le> b)"

fun valid :: "schema \<Rightarrow> pyval \<Rightarrow> bool" where
  "valid (Schema ty props req additional items minI maxI minL maxL) v =
     ((case ty of None \<Rightarrow> True | Some t \<Rightarrow> has_type t v)
      \<and> (case v of
            PDict d \<Rightarrow>
              list_all (\<lambda>(k, sub). case map_of d k of None \<Rightarrow> True | Some x \<Rightarrow> valid sub x) props
              \<and> list_all (\<lambda>k. k \<in> fst ` set d) req
              \<and> (additional \<or> list_all (\<lambda>(k, x). k \<in> fst ` set props) d)
          | PList xs \<Rightarrow>
              (case items of None \<Rightarrow> True | Some sub \<Rightarrow> list_all (valid sub) xs)
              \<and> at_least minI (length xs) \<and> at_most maxI (length xs)
          | PStr s \<Rightarrow> at_least minL (length s) \<and> at_most maxL (length s)
          | _ \<Rightarrow> True))"

text \<open>A schema without any keyword, and \<^verbatim>\<open>{"type": "string"}\<close>.\<close>

definition any_schema :: schema where
  "any_schema = Schema None [] [] True None None None None None"

definition string_schema :: schema where
  "string_schema = Schema (Some TString) [] [] True None None None None None"

definition META_SCHEMA :: schema where
  "META_SCHEMA =
     Schema (Some TObject)
       [(str ''title'', string_schema),
        (str ''keywords'',
           Schema (Some TArray) [] [] True (Some string_schema) (Some 5) (Some 5) None None),
        (str ''description'',
           Schema (Some TString) [] [] True None None None (Some 155) (Some 160)),
        (str ''platform'', string_schema),
        (str ''date'', string_schema),
        (str ''slug'', string_schema)]
       [str ''title'', str ''keywords'', str ''description'', str ''platform'', str ''date'',
        str ''slug'']
       False None None None None None"

section \<open>content_bot.py: validate_meta_schema\<close>

text \<open>\<^verbatim>\<open>validate(instance=meta, schema=META_SCHEMA)\<close> raises when the instance is not valid.\<close>

definition validate_meta_schema :: "pydict \<Rightarrow> pyerror + unit" where
  "validate_meta_schema meta =
     (if valid META_SCHEMA (PDict meta) then Inr () else Inl ValidationError)"

text \<open>
  A value that \<open>len\<close> accepts, and its length. A key that is missing counts through the
  default of \<open>get\<close>, which is a list or a string.
\<close>

definition sized :: "pyval \<Rightarrow> bool" where
  "sized v = (case py_len v of Inr n \<Rightarrow> True | Inl e \<Rightarrow> False)"

definition size_of :: "pyval \<Rightarrow> nat" where
  "size_of v = (case py_len v of Inr n \<Rightarrow> n | Inl e \<Rightarrow> 0)"

definition meta_keys :: "pystr list" where
  "meta_keys =
     [str ''title'', str ''keywords'', str ''description'', str ''platform'', str ''date'',
      str ''slug'']"

text \<open>The meta object of \<open>tests/test_basic.py\<close> (\<open>test_meta_schema_validity\<close>).\<close>

definition sample_meta :: pydict where
  "sample_meta =
     [(str ''title'', PStr (str ''Test'')),
      (str ''keywords'',
         PList [PStr (str ''one''), PStr (str ''two''), PStr (str ''three''), PStr (str ''four''),
                PStr (str ''five'')]),
      (str ''description'', PStr (replicate 155 (ord CHR ''x''))),
      (str ''platform'', PStr (str ''linkedin'')),
      (str ''date'', PStr (str ''2024-01-02'')),
      (str ''slug'', PStr (str ''test''))]"


section \<open>Formatting\<close>

text \<open>\<open>sep.join(xs)\<close>.\<close>

fun join :: "pystr \<Rightarrow> pystr list \<Rightarrow> pystr" where
  "join sep [] = []"
| "join sep [x] = x"
| "join sep (x # y # ys) = x @ sep @ join sep (y # ys)"

text \<open>An integer in an f-string: its decimal digits, with a minus sign when negative.\<close>

function nat_digits :: "nat \<Rightarrow> pystr" where
  "nat_digits n = (if n < 10 then [ord CHR ''0'' + n] else nat_digits (n div 10) @ [ord CHR ''0'' + n mod 10])"
  by pat_completeness auto
termination
  by (relation "measure id") auto

declare nat_digits.simps [simp del]

definition int_str :: "int \<Rightarrow> pystr" where
  "int_str i = (if i < 0 then ord CHR ''-'' # nat_digits (nat (- i)) else nat_digits (nat i))"

text \<open>
  \<open>json.dumps(errors, indent=2)\<close> for a list of strings, with the default
  \<open>ensure_ascii=True\<close>: every character outside the printable ASCII range is written as
  \<open>\uXXXX\<close> (a pair of surrogates beyond U+FFFF), the quote and the backslash are escaped.
\<close>

definition hex_digit :: "nat \<Rightarrow> nat" where
  "hex_digit n = (if n < 10 then ord CHR ''0'' + n else ord CHR ''a'' + (n - 10))"

definition hex4 :: "nat \<Rightarrow> pystr" where
  "hex4 n = [hex_digit (n div 4096 mod 16), hex_digit (n div 256 mod 16),
             hex_digit (n div 16 mod 16), hex_digit (n mod 16)]"

definition json_escape_char :: "nat \<Rightarrow> pystr" where
  "json_escape_char c =
     (if c = 34 then [92, 34]
      else if c = 92 then [92, 92]
      else if c = 10 then [92, ord CHR ''n'']
      else if c = 13 then [92, ord CHR ''r'']
      else if c = 9 then [92, ord CHR ''t'']
      else if c = 8 then [92, ord CHR ''b'']
      else if c = 12 then [92, ord CHR ''f'']
      else if 32 \<le> c \<and> c \<le> 126 then [c]
      else if c < 65536 then [92, ord CHR ''u''] @ hex4 c
      else [92, ord CHR ''u''] @ hex4 (55296 + (c - 65536) div 1024 mod 1024)
           @ [92, ord CHR ''u''] @ hex4 (56320 + (c - 65536) mod 1024))"

definition json_string :: "pystr \<Rightarrow> pystr" where
  "json_string s = [34] @ concat (map json_escape_char s) @ [34]"

definition json_dumps_strings :: "pystr list \<Rightarrow> pystr" where
  "json_dumps_strings xs =
     (if xs = [] then str ''[]''
      else str ''[\<newline>  '' @ join (str '',\<newline>  '') (map json_string xs) @ str ''\<newline>]'')"

section \<open>The configuration, the backend and the trace of a run\<close>

text \<open>
  The configuration document as the code reads it. \<open>tone_rules\<close> is the text an f-string
  gives for the value; \<open>temperature\<close> is a floating point number that is only handed on to
  the backend, and stands here as the text of its literal.
\<close>

record generation_config =
  model :: pystr
  max_output_tokens :: int
  temperature :: pystr

record config =
  company_name :: pystr
  company_description :: pystr
  author_bio :: pystr
  tone_rules :: pystr
  banned_phrases :: "pystr list"
  pillars :: "pystr list"
  generation :: generation_config

text \<open>One call \<open>client.responses.create(model, input, temperature, max_output_tokens)\<close>.\<close>

record request =
  req_model :: pystr
  req_input :: pystr
  req_temperature :: pystr
  req_max_output_tokens :: int

text \<open>
  The backend is an oracle: the \<open>output_text\<close> it answers to a request, given the requests
  it has answered before. A call that fails (network, authentication) is not modelled.
\<close>

type_synonym backend = "request list \<Rightarrow> request \<Rightarrow> pystr"

text \<open>
  What a run does, in order: the calls of the backend, the two validations of a meta
  object, and the files written. A path is the list of its segments.
\<close>

datatype file_content = Text pystr | Json pydict

datatype step =
    BackendCall request
  | RuleCheck pydict
  | SchemaCheck pydict
  | MakeDir "pystr list"
  | WriteFile "pystr list" file_content

type_synonym trace = "step list"

fun requests :: "trace \<Rightarrow> request list" where
  "requests [] = []"
| "requests (BackendCall r # tr) = r # requests tr"
| "requests (_ # tr) = requests tr"

definition call_backend :: "backend \<Rightarrow> request \<Rightarrow> trace \<Rightarrow> pystr \<times> trace" where
  "call_backend B req tr = (B (requests tr) req, tr @ [BackendCall req])"

section \<open>writer.py: the pipeline\<close>

definition completion_request :: "config \<Rightarrow> pystr \<Rightarrow> request" where
  "completion_request cfg prompt =
     \<lparr>req_model = model (generation cfg), req_input = prompt,
      req_temperature = temperature (generation cfg),
      req_max_output_tokens = max_output_tokens (generation cfg)\<rparr>"

text \<open>\<open>_request_completion\<close>: one call, and the answer stripped.\<close>

definition request_completion :: "backend \<Rightarrow> config \<Rightarrow> pystr \<Rightarrow> trace \<Rightarrow> pystr \<times> trace" where
  "request_completion B cfg prompt tr =
     (case call_backend B (completion_request cfg prompt) tr of
        (output_text, tr') \<Rightarrow> (strip output_text, tr'))"

definition outline_prompt ::
  "config \<Rightarrow> pystr \<Rightarrow> pystr \<Rightarrow> pystr \<Rightarrow> int \<Rightarrow> pystr \<Rightarrow> pystr" where
  \<open>outline_prompt cfg topic audience platform words tone =
     str ''\<newline>You are an expert content strategist writing for ''
     @ company_name cfg
     @ str ''. Create a detailed outline.\<newline>''
     @ str ''\<newline>Topic: ''
     @ topic
     @ str ''\<newline>Audience: ''
     @ audience
     @ str ''\<newline>Platform: ''
     @ platform
     @ str ''\<newline>Target length: ''
     @ int_str words
     @ str '' words\<newline>''
     @ str ''Tone: ''
     @ tone
     @ str ''\<newline>\<newline>Company description: ''
     @ company_description cfg
     @ str ''\<newline>Author bio: ''
     @ author_bio cfg
     @ str ''\<newline>Tone rules: ''
     @ tone_rules cfg
     @ str ''\<newline>Banned phrases: ''
     @ join (str '', '') (banned_phrases cfg)
     @ str ''\<newline>\<newline>Requirements:\<newline>''
     @ str ''- Provide a structured outline with headings and subheadings.\<newline>''
     @ str ''- Include 3-5 section headings with subheadings.\<newline>''
     @ str ''- Include specific examples but do not invent client names or results.\<newline>''
     @ str ''- Add one mini-case or scenario relevant to Evolvra clients.\<newline>''
     @ str ''- Add a checklist titled "What to do next" with 5 bullet items.\<newline>''
     @ str ''- Provide 5 SEO keywords and a meta description of 155-160 characters.\<newline>''
     @ str ''- Provide 3 social snippets (LinkedIn, Facebook, Instagram caption) with CTA.\<newline>''
     @ str ''- Avoid em dashes.\<newline>''
     @ str ''Return the outline in Markdown.\<newline>''\<close>

definition generate_outline ::
  "backend \<Rightarrow> config \<Rightarrow> pystr \<Rightarrow> pystr \<Rightarrow> pystr \<Rightarrow> int \<Rightarrow> pystr \<Rightarrow> trace \<Rightarrow> pystr \<times> trace" where
  "generate_outline B cfg topic audience platform words tone tr =
     request_completion B cfg (outline_prompt cfg topic audience platform words tone) tr"

definition article_prompt ::
  "config \<Rightarrow> pystr \<Rightarrow> pystr \<Rightarrow> pystr \<Rightarrow> pystr \<Rightarrow> int \<Rightarrow> pystr \<Rightarrow> pystr" where
  \<open>article_prompt cfg outline topic audience platform words tone =
     str ''\<newline>You are an expert writer for ''
     @ company_name cfg
     @ str ''. Expand the outline into a full article.\<newline>''
     @ str ''\<newline>Topic: ''
     @ topic
     @ str ''\<newline>Audience: ''
     @ audience
     @ str ''\<newline>Platform: ''
     @ platform
     @ str ''\<newline>Target length: ''
     @ int_str words
     @ str '' words\<newline>''
     @ str ''Tone: ''
     @ tone
     @ str ''\<newline>\<newline>Company description: ''
     @ company_description cfg
     @ str ''\<newline>Author bio: ''
     @ author_bio cfg
     @ str ''\<newline>Tone rules: ''
     @ tone_rules cfg
     @ str ''\<newline>Banned phrases: ''
     @ join (str '', '') (banned_phrases cfg)
     @ str ''\<newline>\<newline>Outline:\<newline>''
     @ outline
     @ str ''\<newline>\<newline>Article requirements:\<newline>''
     @ str ''- Must include Hook, Context, 3-5 sections with subheadings, examples, a mini-case scenario, a "What to do next" checklist, and a short Conclusion.\<newline>''
     @ str ''- Provide SEO keywords and meta description near the end in a clearly labeled section.\<newline>''
     @ str ''- Provide 3 social snippets at the end in a clearly labeled section.\<newline>''
     @ str ''- Avoid em dashes.\<newline>''
     @ str ''- Never invent client names or results. Use hypotheses or best practices.\<newline>''
     @ str ''- Avoid statistics unless provided in the outline.\<newline>''
     @ str ''Return the full article in Markdown.\<newline>''\<close>

definition generate_article ::
  "backend \<Rightarrow> config \<Rightarrow> pystr \<Rightarrow> pystr \<Rightarrow> pystr \<Rightarrow> pystr \<Rightarrow> int \<Rightarrow> pystr \<Rightarrow> trace
   \<Rightarrow> pystr \<times> trace" where
  "generate_article B cfg outline topic audience platform words tone tr =
     request_completion B cfg (article_prompt cfg outline topic audience platform words tone) tr"

definition revise_prompt :: "pystr \<Rightarrow> pystr list \<Rightarrow> pystr" where
  \<open>revise_prompt article_markdown errors =
     str ''\<newline>Revise the following article to fix these issues:\<newline>''
     @ json_dumps_strings errors
     @ str ''\<newline>\<newline>Rules:\<newline>''
     @ str ''- Keep the required structure and headings.\<newline>''
     @ str ''- Remove em dashes.\<newline>''
     @ str ''- Remove any fabricated claims.\<newline>''
     @ str ''- Preserve the SEO keywords and meta description if they are valid.\<newline>''
     @ str ''- Return only the revised Markdown article.\<newline>''
     @ str ''\<newline>Article:\<newline>''
     @ article_markdown
     @ str ''\<newline>''\<close>

definition revise_article ::
  "backend \<Rightarrow> config \<Rightarrow> pystr \<Rightarrow> pystr list \<Rightarrow> trace \<Rightarrow> pystr \<times> trace" where
  "revise_article B cfg article_markdown errors tr =
     request_completion B cfg (revise_prompt article_markdown errors) tr"

definition fallback_keywords :: "pystr list" where
  "fallback_keywords =
     [str ''content systems'', str ''AI automation'', str ''digital marketing'',
      str ''CRM workflows'', str ''operations'']"

record package =
  article :: pystr
  social :: pystr
  meta :: pydict

definition generate_package ::
  "backend \<Rightarrow> unicode_db \<Rightarrow> config \<Rightarrow> pystr \<Rightarrow> pystr \<Rightarrow> pystr \<Rightarrow> int \<Rightarrow> pystr \<Rightarrow> trace
   \<Rightarrow> package \<times> trace" where
  "generate_package B U cfg topic audience platform words tone tr =
     (case generate_outline B cfg topic audience platform words tone tr of
        (outline, tr1) \<Rightarrow>
     (case generate_article B cfg outline topic audience platform words tone tr1 of
        (article0, tr2) \<Rightarrow>
     (let errors = self_check U article0 in
     (case (if errors \<noteq> [] then revise_article B cfg article0 errors tr2 else (article0, tr2)) of
        (article1, tr3) \<Rightarrow>
     (case extract_meta article1 of
        (keywords, description) \<Rightarrow>
     (let social1 = extract_social article1 in
        (\<lparr>article = article1,
          social = social1,
          meta =
            [(str ''title'', PStr topic),
             (str ''keywords'',
                PList (map PStr (if keywords \<noteq> [] then keywords else fallback_keywords))),
             (str ''description'', PStr description),
             (str ''platform'', PStr platform),
             (str ''slug'', PStr [])]\<rparr>,
         tr3)))))))"

text \<open>A configuration and two backends, for concrete runs: one answers its third request
  with another text than the first two, the other always answers the same.\<close>

definition sample_config :: config where
  "sample_config =
     \<lparr>company_name = str ''Evolvra'',
      company_description = str ''Automation for small teams'',
      author_bio = str ''Writes about operations'',
      tone_rules = str ''Plain and practical'',
      banned_phrases = [str ''game changer'', str ''synergy''],
      pillars = [str ''AI automation'', str ''CRM workflows''],
      generation = \<lparr>model = str ''gpt-4o-mini'', max_output_tokens = 2000,
                      temperature = str ''0.7''\<rparr>\<rparr>"

definition draft_backend :: backend where
  "draft_backend history req =
     (if length history < 2 then str ''  A first draft.\<newline>'' else str ''A revised draft.'')"

definition two_keyword_backend :: backend where
  "two_keyword_backend history req = str ''SEO Keywords: crm, email''"


section \<open>topics.py: generate_topics\<close>

text \<open>
  \<^verbatim>\<open>re.search(r"{.*}", raw, re.DOTALL)\<close>: from the first opening brace to the last closing
  brace after it.
\<close>

definition re_search_braces :: "pystr \<Rightarrow> pystr option" where
  "re_search_braces raw =
     (case dropWhile (\<lambda>c. c \<noteq> ord CHR ''{'') raw of
        [] \<Rightarrow> None
      | b # rest \<Rightarrow>
          if ord CHR ''}'' \<in> set rest
          then Some (b # rev (dropWhile (\<lambda>c. c \<noteq> ord CHR ''}'') (rev rest)))
          else None)"

definition topics_prompt :: "pystr list \<Rightarrow> int \<Rightarrow> pystr" where
  \<open>topics_prompt pillar_list count =
     str ''\<newline>Generate a ranked list of ''
     @ int_str count
     @ str '' content topic ideas.\<newline>''
     @ str ''Pillars: ''
     @ join (str '', '') pillar_list
     @ str ''\<newline>\<newline>Return JSON only in this format:\<newline>''
     @ str ''{\<newline>''
     @ str ''  "topics": [\<newline>''
     @ str ''    {"title": "...", "angle": "..."}\<newline>''
     @ str ''  ]\<newline>''
     @ str ''}\<newline>''
     @ str ''Keep angles short and practical.\<newline>''
     @ str ''Avoid em dashes.\<newline>''\<close>

text \<open>\<open>payload.get("topics", [])\<close>: only a dictionary has \<open>get\<close>.\<close>

definition payload_topics :: "pyval \<Rightarrow> pyerror + pyval" where
  "payload_topics payload =
     (case payload of
        PDict d \<Rightarrow> Inr (dict_get d (str ''topics'') (PList []))
      | _ \<Rightarrow> Inl AttributeError)"

text \<open>
  \<open>json.loads\<close> belongs to the standard library and is a parameter \<open>loads\<close>: the decoded
  value, or the exception raised. The first call is inside \<open>try\<close> and only its
  \<open>JSONDecodeError\<close> is caught; the second call, on the text between the braces, is not
  inside any \<open>try\<close>.
\<close>

definition generate_topics ::
  "backend \<Rightarrow> (pystr \<Rightarrow> pyerror + pyval) \<Rightarrow> pystr list \<Rightarrow> int \<Rightarrow> pystr \<Rightarrow> pystr \<Rightarrow> trace
   \<Rightarrow> (pyerror + pyval) \<times> trace" where
  "generate_topics B loads pillar_list count model_name temp tr =
     (case call_backend B
             \<lparr>req_model = model_name, req_input = topics_prompt pillar_list count,
              req_temperature = temp, req_max_output_tokens = 600\<rparr> tr of
        (output_text, tr1) \<Rightarrow>
          (let raw = strip output_text in
           case loads raw of
             Inr payload \<Rightarrow> (payload_topics payload, tr1)
           | Inl JSONDecodeError \<Rightarrow>
               (case re_search_braces raw of
                  None \<Rightarrow> (Inr (PList []), tr1)
                | Some match \<Rightarrow>
                    (case loads match of
                       Inl e \<Rightarrow> (Inl e, tr1)
                     | Inr payload \<Rightarrow> (payload_topics payload, tr1)))
           | Inl e \<Rightarrow> (Inl e, tr1)))"

text \<open>A decoder for texts that are not JSON: it rejects what it is given.\<close>

definition not_json :: "pystr \<Rightarrow> pyerror + pyval" where
  "not_json text = Inl JSONDecodeError"

definition oops_backend :: backend where
  "oops_backend history req = str ''Here you go: {oops}''"

section \<open>utils.py and content_bot.py: writing the outputs\<close>

text \<open>
  \<open>get_output_dir\<close>, with the ISO text of the date for \<open>date_value\<close>: the segments of the
  path, the slug only for a topic that is not empty.
\<close>

definition get_output_dir :: "pystr \<Rightarrow> pystr \<Rightarrow> pystr \<Rightarrow> pystr list" where
  "get_output_dir base_dir topic date_folder =
     (let base_path = [base_dir, date_folder]
      in if topic \<noteq> [] then base_path @ [slugify topic] else base_path)"

definition write_outputs :: "pystr list \<Rightarrow> pystr \<Rightarrow> pystr \<Rightarrow> pydict \<Rightarrow> trace \<Rightarrow> trace" where
  "write_outputs base_dir article_text social_text meta_dict tr =
     tr @ [MakeDir base_dir,
           WriteFile (base_dir @ [str ''article.md'']) (Text article_text),
           WriteFile (base_dir @ [str ''social.md'']) (Text social_text),
           WriteFile (base_dir @ [str ''meta.json'']) (Json meta_dict)]"

section \<open>content_bot.py: run_single and run_calendar\<close>

record args =
  arg_topic :: pystr
  arg_audience :: pystr
  arg_platform :: pystr
  arg_words :: int
  arg_tone :: pystr
  arg_count :: int

text \<open>
  The statements that follow \<open>generate_package\<close>, the same in \<open>run_single\<close> (lines 52 to 61)
  and in the loop of \<open>run_calendar\<close> (lines 81 to 90): fill in slug and date, check the rules,
  raise \<open>ValueError\<close> on any error, validate against the schema, write the three files.
  \<open>today\<close> is the text of \<open>date.today().isoformat()\<close>. The two validations are recorded in
  the trace when they are called.
\<close>

definition validate_and_write ::
  "pystr \<Rightarrow> pystr \<Rightarrow> package \<Rightarrow> trace \<Rightarrow> (pyerror + unit) \<times> trace" where
  "validate_and_write today topic payload tr =
     (let slug = slugify topic;
          meta1 = dict_set (dict_set (meta payload) (str ''slug'') (PStr slug))
                    (str ''date'') (PStr today);
          tr1 = tr @ [RuleCheck meta1]
      in case validate_meta meta1 of
           Inl e \<Rightarrow> (Inl e, tr1)
         | Inr meta_errors \<Rightarrow>
             if meta_errors \<noteq> [] then (Inl (ValueError meta_errors), tr1)
             else (let tr2 = tr1 @ [SchemaCheck meta1]
                   in case validate_meta_schema meta1 of
                        Inl e \<Rightarrow> (Inl e, tr2)
                      | Inr u \<Rightarrow>
                          (Inr (),
                           write_outputs (get_output_dir (str ''outputs'') topic today)
                             (article payload) (social payload) meta1 tr2)))"

definition run_single ::
  "backend \<Rightarrow> unicode_db \<Rightarrow> config \<Rightarrow> pystr \<Rightarrow> args \<Rightarrow> trace \<Rightarrow> (pyerror + unit) \<times> trace" where
  "run_single B U cfg today a tr =
     (case generate_package B U cfg (arg_topic a) (arg_audience a) (arg_platform a) (arg_words a)
             (arg_tone a) tr of
        (payload, tr1) \<Rightarrow> validate_and_write today (arg_topic a) payload tr1)"

text \<open>
  \<open>for item in topics\<close>: a list gives its elements, a string its characters, a dictionary
  its keys; nothing else can be iterated.
\<close>

definition py_iter :: "pyval \<Rightarrow> pyerror + pyval list" where
  "py_iter v =
     (case v of
        PList xs \<Rightarrow> Inr xs
      | PStr s \<Rightarrow> Inr (map (\<lambda>c. PStr [c]) s)
      | PDict d \<Rightarrow> Inr (map (\<lambda>(k, x). PStr k) d)
      | _ \<Rightarrow> Inl TypeError)"

text \<open>
  The body of the loop, item by item; the first exception ends the run. An item that is
  not a dictionary has no \<open>get\<close>. A title that is not a string still goes through
  \<open>generate_package\<close>, formatted into the prompts by \<open>fmt\<close> (what \<open>str()\<close> gives for it), and
  then \<open>slugify\<close> raises \<open>TypeError\<close>.
\<close>

fun calendar_loop ::
  "backend \<Rightarrow> unicode_db \<Rightarrow> (pyval \<Rightarrow> pystr) \<Rightarrow> config \<Rightarrow> pystr \<Rightarrow> args \<Rightarrow> pyval list \<Rightarrow> trace
   \<Rightarrow> (pyerror + unit) \<times> trace" where
  "calendar_loop B U fmt cfg today a [] tr = (Inr (), tr)"
| "calendar_loop B U fmt cfg today a (item # items) tr =
     (case item of
        PDict d \<Rightarrow>
          (case dict_get d (str ''title'') (PStr (str ''Untitled topic'')) of
             PStr topic \<Rightarrow>
               (case generate_package B U cfg topic (arg_audience a) (arg_platform a)
                       (arg_words a) (arg_tone a) tr of
                  (payload, tr1) \<Rightarrow>
                    (case validate_and_write today topic payload tr1 of
                       (Inl e, tr2) \<Rightarrow> (Inl e, tr2)
                     | (Inr u, tr2) \<Rightarrow> calendar_loop B U fmt cfg today a items tr2))
           | other \<Rightarrow>
               (case generate_package B U cfg (fmt other) (arg_audience a) (arg_platform a)
                       (arg_words a) (arg_tone a) tr of
                  (payload, tr1) \<Rightarrow> (Inl TypeError, tr1)))
      | _ \<Rightarrow> (Inl AttributeError, tr))"

definition run_calendar ::
  "backend \<Rightarrow> unicode_db \<Rightarrow> (pystr \<Rightarrow> pyerror + pyval) \<Rightarrow> (pyval \<Rightarrow> pystr) \<Rightarrow> config \<Rightarrow> pystr
   \<Rightarrow> args \<Rightarrow> trace \<Rightarrow> (pyerror + unit) \<times> trace" where
  "run_calendar B U loads fmt cfg today a tr =
     (case generate_topics B loads (pillars cfg) (arg_count a) (model (generation cfg))
             (temperature (generation cfg)) tr of
        (Inl e, tr1) \<Rightarrow> (Inl e, tr1)
      | (Inr topics, tr1) \<Rightarrow>
          (case py_iter topics of
             Inl e \<Rightarrow> (Inl e, tr1)
           | Inr items \<Rightarrow> calendar_loop B U fmt cfg today a items tr1))"

text \<open>
  A trace keeps the order of validation when every schema validation of a meta object
  comes after a rule check of that object that found no error, and every \<open>meta.json\<close> that
  is written holds an object whose schema validation came before and passed. \<open>checked\<close>
  and \<open>validated\<close> are the objects that have passed the one and the other so far.
\<close>

fun writes_validated :: "pydict list \<Rightarrow> pydict list \<Rightarrow> trace \<Rightarrow> bool" where
  "writes_validated checked validated [] = True"
| "writes_validated checked validated (RuleCheck m # tr) =
     writes_validated (if validate_meta m = Inr [] then m # checked else checked) validated tr"
| "writes_validated checked validated (SchemaCheck m # tr) =
     (m \<in> set checked
      \<and> writes_validated checked
          (if validate_meta_schema m = Inr () then m # validated else validated) tr)"
| "writes_validated checked validated (WriteFile p (Json m) # tr) =
     (m \<in> set validated \<and> writes_validated checked validated tr)"
| "writes_validated checked validated (_ # tr) = writes_validated checked validated tr"

text \<open>
  A trace stops at a failed rule check when a rule check that finds errors (or raises) is
  the last step of the run, and the run ends with that exception.
\<close>

fun failed_check_ends :: "pyerror + unit \<Rightarrow> trace \<Rightarrow> bool" where
  "failed_check_ends res [] = True"
| "failed_check_ends res (RuleCheck m # tr) =
     (case validate_meta m of
        Inl e \<Rightarrow> tr = [] \<and> res = Inl e
      | Inr errors \<Rightarrow>
          if errors = [] then failed_check_ends res tr
          else tr = [] \<and> res = Inl (ValueError errors))"
| "failed_check_ends res (_ # tr) = failed_check_ends res tr"

definition sample_args :: args where
  "sample_args =
     \<lparr>arg_topic = str ''Inbox zero'', arg_audience = str ''Founders'',
      arg_platform = str ''linkedin'', arg_words = 1200, arg_tone = str ''friendly'',
      arg_count = 4\<rparr>"

text \<open>A piece of a trace that consists of calls of the backend.\<close>

definition backend_calls_only :: "trace \<Rightarrow> bool" where
  "backend_calls_only steps \<longleftrightarrow>
     list_all (\<lambda>s. case s of BackendCall r \<Rightarrow> True | _ \<Rightarrow> False) steps"


section \<open>Proofs: slugify\<close>

lemma slug_sep_45 [simp]: "slug_sep 45"
  by (simp add: slug_sep_def)

lemma slug_char_not_space: "slug_char c \<Longrightarrow> \<not> is_space c"
  by (auto simp: slug_char_def is_space_def is_lower_az_def is_digit_09_def)

lemma slug_char_keep: "slug_char c \<Longrightarrow> slug_keep c"
  by (auto simp: slug_char_def slug_keep_def)

lemma slug_char_lower: "slug_char c \<Longrightarrow> lower_char c = c"
  by (auto simp: slug_char_def lower_char_def is_upper_az_def is_lower_az_def is_digit_09_def)

lemma slug_char_sep: "slug_char c \<Longrightarrow> slug_sep c \<longleftrightarrow> c = 45"
  by (auto simp: slug_sep_def dest: slug_char_not_space)

lemma lower_keeps_sep: "slug_sep (lower_char c) \<longleftrightarrow> slug_sep c"
  by (auto simp: lower_char_def slug_sep_def is_upper_az_def is_space_def)

lemma lower_of_kept: "slug_keep c \<Longrightarrow> \<not> slug_sep c \<Longrightarrow> slug_char (lower_char c)"
  by (auto simp: slug_keep_def slug_sep_def slug_char_def lower_char_def
      is_upper_az_def is_lower_az_def is_digit_09_def)

lemma collapse_chars:
  "\<forall>c\<in>set s. slug_sep c \<or> slug_char c \<Longrightarrow> \<forall>c\<in>set (collapse_seps s). slug_char c"
proof (induction s rule: collapse_seps.induct)
  case 1
  then show ?case by simp
next
  case (2 c cs)
  show ?case
  proof (cases "slug_sep c")
    case True
    have "\<forall>x\<in>set (dropWhile slug_sep cs). slug_sep x \<or> slug_char x"
      using "2.prems" by (auto dest: set_dropWhileD)
    with True "2.IH"(1) show ?thesis by (simp add: slug_char_def)
  next
    case False
    with "2.prems" "2.IH"(2) show ?thesis by simp
  qed
qed

lemma collapse_head:
  "collapse_seps s = a # r \<Longrightarrow> a = 45 \<Longrightarrow> s \<noteq> [] \<and> slug_sep (hd s)"
  by (cases s) (auto split: if_splits)

lemma dropWhile_head: "dropWhile P xs = a # r \<Longrightarrow> \<not> P a"
  by (metis hd_dropWhile list.distinct(1) list.sel(1))

lemma collapse_single: "single_hyphens (collapse_seps s)"
proof (induction s rule: collapse_seps.induct)
  case 1
  then show ?case by simp
next
  case (2 c cs)
  show ?case
  proof (cases "slug_sep c")
    case True
    let ?t = "dropWhile slug_sep cs"
    have ih: "single_hyphens (collapse_seps ?t)" using True "2.IH"(1) by simp
    show ?thesis
    proof (cases "collapse_seps ?t")
      case Nil
      with True show ?thesis by simp
    next
      case (Cons a r)
      have "a \<noteq> 45"
      proof
        assume "a = 45"
        with Cons have "?t \<noteq> [] \<and> slug_sep (hd ?t)" by (rule collapse_head)
        then show False by (metis hd_dropWhile)
      qed
      with True Cons ih show ?thesis by simp
    qed
  next
    case False
    then have c45: "c \<noteq> 45" by auto
    have ih: "single_hyphens (collapse_seps cs)" using False "2.IH"(2) by simp
    show ?thesis
    proof (cases "collapse_seps cs")
      case Nil
      with False show ?thesis by simp
    next
      case (Cons a r)
      with False c45 ih show ?thesis by simp
    qed
  qed
qed

lemma collapse_fixed:
  "\<forall>c\<in>set s. slug_char c \<Longrightarrow> single_hyphens s \<Longrightarrow> collapse_seps s = s"
proof (induction s rule: collapse_seps.induct)
  case 1
  then show ?case by simp
next
  case (2 c cs)
  show ?case
  proof (cases "slug_sep c")
    case True
    with "2.prems"(1) have c: "c = 45" by (simp add: slug_char_sep)
    have dw: "dropWhile slug_sep cs = cs"
    proof (cases cs)
      case Nil
      then show ?thesis by simp
    next
      case (Cons b bs)
      with "2.prems"(2) c have "b \<noteq> 45" by simp
      moreover have "slug_char b" using Cons "2.prems"(1) by simp
      ultimately have "\<not> slug_sep b" by (simp add: slug_char_sep)
      with Cons show ?thesis by simp
    qed
    have "single_hyphens cs" using "2.prems"(2) by (cases cs) simp_all
    with True dw "2.IH"(1) "2.prems"(1) c show ?thesis by simp
  next
    case False
    have "single_hyphens cs" using "2.prems"(2) by (cases cs) simp_all
    with False "2.IH"(2) "2.prems"(1) show ?thesis by simp
  qed
qed

lemma dropWhile_none: "\<forall>c\<in>set s. \<not> P c \<Longrightarrow> dropWhile P s = s"
  by (cases s) simp_all

lemma strip_no_space:
  assumes "\<forall>c\<in>set s. \<not> is_space c"
  shows "strip s = s"
proof -
  have "dropWhile is_space s = s" using assms by (rule dropWhile_none)
  moreover have "\<forall>c\<in>set (rev s). \<not> is_space c" using assms by simp
  then have "dropWhile is_space (rev s) = rev s" by (rule dropWhile_none)
  ultimately show ?thesis by (simp add: strip_def)
qed

lemma set_strip: "set (strip s) \<subseteq> set s"
proof -
  have "set (strip s) = set (dropWhile is_space (rev (dropWhile is_space s)))"
    by (simp add: strip_def)
  also have "\<dots> \<subseteq> set (rev (dropWhile is_space s))" by (auto dest: set_dropWhileD)
  also have "\<dots> \<subseteq> set s" by (auto dest: set_dropWhileD)
  finally show ?thesis .
qed

lemma cleaned_chars:
  "\<forall>c\<in>set (lower_cleaned (strip (filter slug_keep text))). slug_sep c \<or> slug_char c"
proof
  fix c assume "c \<in> set (lower_cleaned (strip (filter slug_keep text)))"
  then obtain d where d: "d \<in> set (strip (filter slug_keep text))" and c: "c = lower_char d"
    by (auto simp: lower_cleaned_def)
  from d set_strip have "d \<in> set (filter slug_keep text)" by blast
  then have "slug_keep d" by simp
  then show "slug_sep c \<or> slug_char c"
    using c lower_keeps_sep lower_of_kept by blast
qed

lemma untitled_shape:
  "(\<forall>c\<in>set (str ''untitled''). slug_char c) \<and> single_hyphens (str ''untitled'')"
  by (simp add: str_def slug_char_def is_lower_az_def)

lemma slugify_shape: "(\<forall>c\<in>set (slugify x). slug_char c) \<and> single_hyphens (slugify x)"
proof (cases "collapse_seps (lower_cleaned (strip (filter slug_keep x))) = []")
  case True
  then have "slugify x = str ''untitled''" by (simp add: slugify_def)
  with untitled_shape show ?thesis by simp
next
  case False
  then have "slugify x = collapse_seps (lower_cleaned (strip (filter slug_keep x)))"
    by (simp add: slugify_def)
  with collapse_chars [OF cleaned_chars] collapse_single show ?thesis by simp
qed

lemma slugify_nonempty: "slugify x \<noteq> []"
  by (simp add: slugify_def Let_def str_def)

lemma slugify_fixed:
  assumes "\<forall>c\<in>set s. slug_char c" and "single_hyphens s" and "s \<noteq> []"
  shows "slugify s = s"
proof -
  have "filter slug_keep s = s" using assms(1) by (simp add: slug_char_keep)
  moreover have "strip s = s" using assms(1) by (simp add: strip_no_space slug_char_not_space)
  moreover have "lower_cleaned s = s"
    using assms(1) by (simp add: lower_cleaned_def slug_char_lower map_idI)
  moreover have "collapse_seps s = s" using assms(1,2) by (rule collapse_fixed)
  ultimately show ?thesis using assms(3) by (simp add: slugify_def)
qed

lemma slugify_no_kept:
  assumes "\<forall>c\<in>set x. \<not> (is_lower_az c \<or> is_upper_az c \<or> is_digit_09 c \<or> c = ord CHR ''-'')"
  shows "slugify x = str ''untitled''"
proof -
  have "\<forall>c\<in>set (filter slug_keep x). is_space c"
    using assms by (auto simp: slug_keep_def)
  then have "dropWhile is_space (filter slug_keep x) = []"
    by (simp only: dropWhile_eq_Nil_conv)
  then have "strip (filter slug_keep x) = []"
    by (simp only: strip_def rev.simps dropWhile.simps)
  then show ?thesis by (simp add: slugify_def lower_cleaned_def)
qed

lemma slugify_hello: "slugify (str ''Hello World!'') = str ''hello-world''"
  by (simp add: slugify_def str_def slug_keep_def strip_def lower_cleaned_def lower_char_def
      slug_sep_def is_space_def is_lower_az_def is_upper_az_def is_digit_09_def)

text \<open>
  Claim C7, first reading. The claim promises the placeholder \<open>untitled\<close> for every input
  made of punctuation only. The hyphen is a punctuation mark that the first substitution
  keeps on purpose, so the input \<open>---\<close> is turned into the slug \<open>-\<close>, not into \<open>untitled\<close>.
\<close>

theorem slugify_hyphens_not_untitled:
  "slugify (str ''---'') = str ''-'' \<and> slugify (str ''---'') \<noteq> str ''untitled''"
  by (simp add: slugify_def str_def slug_keep_def strip_def lower_cleaned_def lower_char_def
      slug_sep_def is_space_def is_lower_az_def is_upper_az_def is_digit_09_def)

text \<open>
  Claim C7, as amended. For every string \<open>x\<close>: \<open>slugify\<close> is idempotent on its own output;
  the output consists of characters of \<open>[a-z0-9-]\<close> only and is never empty; the output is
  the placeholder \<open>untitled\<close> whenever \<open>x\<close> contains no ASCII letter, no ASCII digit and no
  hyphen (so for every input of punctuation other than hyphens, and of white space); and
  \<open>slugify("Hello World!") = "hello-world"\<close>.
\<close>

theorem slugify_idempotent_charset_fallback:
  "slugify (slugify x) = slugify x
   \<and> (\<forall>c\<in>set (slugify x). is_lower_az c \<or> is_digit_09 c \<or> c = ord CHR ''-'')
   \<and> slugify x \<noteq> []
   \<and> ((\<forall>c\<in>set x. \<not> (is_lower_az c \<or> is_upper_az c \<or> is_digit_09 c \<or> c = ord CHR ''-''))
        \<longrightarrow> slugify x = str ''untitled'')
   \<and> slugify (str ''Hello World!'') = str ''hello-world''"
proof -
  have shape: "(\<forall>c\<in>set (slugify x). slug_char c) \<and> single_hyphens (slugify x)"
    by (rule slugify_shape)
  have idem: "slugify (slugify x) = slugify x"
    using shape slugify_nonempty by (simp add: slugify_fixed)
  have chars: "\<forall>c\<in>set (slugify x). is_lower_az c \<or> is_digit_09 c \<or> c = ord CHR ''-''"
    using shape by (simp add: slug_char_def)
  show ?thesis
    using idem chars slugify_nonempty slugify_no_kept slugify_hello by blast
qed

theorem slugify_idempotent_charset_fallback_witness:
  "list_all (\<lambda>c. \<not> (is_lower_az c \<or> is_upper_az c \<or> is_digit_09 c \<or> c = ord CHR ''-''))
     (str ''!!!'')
   \<and> slugify (str ''!!!'') = str ''untitled''
   \<and> slugify (slugify (str ''!!!'')) = slugify (str ''!!!'')
   \<and> slugify (str ''!!!'') \<noteq> []"
proof -
  have h: "\<forall>c\<in>set (str ''!!!''). \<not> (is_lower_az c \<or> is_upper_az c \<or> is_digit_09 c \<or> c = ord CHR ''-'')"
    by (simp add: str_def is_lower_az_def is_upper_az_def is_digit_09_def)
  have l: "list_all (\<lambda>c. \<not> (is_lower_az c \<or> is_upper_az c \<or> is_digit_09 c \<or> c = ord CHR ''-''))
     (str ''!!!'')"
    using h by (simp only: list_all_iff)
  show ?thesis
    using h l slugify_idempotent_charset_fallback [of "str ''!!!''"] by blast
qed

section \<open>Proofs: the self-check\<close>

lemma em_dash_message_distinct:
  "str ''Contains em dash.'' \<notin> set (heading_errors a)"
  "str ''Contains em dash.'' \<noteq> str ''Not enough section headings.''"
  "str ''Contains em dash.'' \<noteq> str ''Checklist missing.''"
  "str ''Contains em dash.'' \<noteq> str ''Potential fabricated percentage claim.''"
  by (simp_all add: heading_errors_def REQUIRED_HEADINGS_def str_def)

text \<open>The em-dash message is returned exactly when the three code points of the literal occur.\<close>

lemma em_dash_error_iff:
  "str ''Contains em dash.'' \<in> set (self_check U a) \<longleftrightarrow> contains a banned_mark"
  using em_dash_message_distinct(1) [of a] em_dash_message_distinct(2-4)
  by (auto simp: self_check_def)

text \<open>
  Claim C1 on the code. The literal that \<open>self_check\<close> looks for is not the em dash: an
  article that consists of the em dash U+2014 gets no em-dash error, and an article that
  holds the three code points of the literal and no em dash gets one.
\<close>

theorem self_check_em_dash_not_flagged:
  "em_dash \<in> set [em_dash]
   \<and> str ''Contains em dash.'' \<notin> set (self_check ascii_only [em_dash])
   \<and> em_dash \<notin> set banned_mark
   \<and> str ''Contains em dash.'' \<in> set (self_check ascii_only banned_mark)"
  by (simp add: em_dash_error_iff banned_mark_def em_dash_def)

text \<open>A required heading that does not occur is reported by its own message.\<close>

lemma missing_heading_reported:
  assumes "h \<in> set REQUIRED_HEADINGS" and "\<not> contains a h"
  shows "str ''Missing heading: '' @ h \<in> set (self_check U a)"
proof -
  have "str ''Missing heading: '' @ h \<in> set (heading_errors a)"
    using assms by (auto simp: heading_errors_def)
  then show ?thesis by (simp add: self_check_def)
qed


section \<open>Proofs: a complete article\<close>

text \<open>Without a percent sign there is no fabricated percentage claim.\<close>

lemma digit_percent_has_percent: "digit_percent U s \<Longrightarrow> ord CHR ''%'' \<in> set s"
  by (induction U s rule: digit_percent.induct) (auto split: if_splits)

lemma verb_then_percent_has_percent: "verb_then_percent U prev s \<Longrightarrow> ord CHR ''%'' \<in> set s"
proof (induction s arbitrary: prev)
  case Nil
  then show ?case by simp
next
  case (Cons c cs)
  let ?here = "list_ex (\<lambda>w. if word_here U prev (c # cs) w
                        then digit_percent U (takeWhile not_newline (drop (length w) (c # cs)))
                        else False) claim_verbs"
  show ?case
  proof (cases ?here)
    case True
    then obtain w :: pystr where "digit_percent U (takeWhile not_newline (drop (length w) (c # cs)))"
      by (auto simp: list_ex_iff split: if_splits)
    then have "ord CHR ''%'' \<in> set (takeWhile not_newline (drop (length w) (c # cs)))"
      by (rule digit_percent_has_percent)
    then have "ord CHR ''%'' \<in> set (drop (length w) (c # cs))"
      by (rule set_takeWhileD [THEN conjunct1])
    then show ?thesis by (rule in_set_dropD)
  next
    case False
    with Cons.prems have "verb_then_percent U (Some c) cs"
      by (simp split: if_splits)
    then show ?thesis using Cons.IH by simp
  qed
qed

lemma fake_claim_from_has_percent: "fake_claim_from U prev s \<Longrightarrow> ord CHR ''%'' \<in> set s"
proof (induction s arbitrary: prev)
  case Nil
  then show ?case by simp
next
  case (Cons c cs)
  let ?here = "list_ex (\<lambda>w. if word_here U prev (c # cs) w
                        then verb_then_percent U (first_char (drop (length w - 1) (c # cs)))
                               (drop (length w) (c # cs))
                        else False) claim_subjects"
  show ?case
  proof (cases ?here)
    case True
    then obtain w :: pystr where "verb_then_percent U (first_char (drop (length w - 1) (c # cs)))
                               (drop (length w) (c # cs))"
      by (auto simp: list_ex_iff split: if_splits)
    then have "ord CHR ''%'' \<in> set (drop (length w) (c # cs))"
      by (rule verb_then_percent_has_percent)
    then show ?thesis by (rule in_set_dropD)
  next
    case False
    with Cons.prems have "fake_claim_from U (Some c) cs"
      by (simp split: if_splits)
    then show ?thesis using Cons.IH by simp
  qed
qed

lemma no_percent_no_claim: "ord CHR ''%'' \<notin> set a \<Longrightarrow> \<not> fake_claim U a"
  unfolding fake_claim_def by (blast dest: fake_claim_from_has_percent)

text \<open>When \<open>self_check\<close> returns no error.\<close>

lemma heading_errors_empty_iff:
  "heading_errors a = [] \<longleftrightarrow> list_all (contains a) REQUIRED_HEADINGS"
  by (simp add: heading_errors_def REQUIRED_HEADINGS_def)

lemma self_check_empty_iff:
  "self_check U a = [] \<longleftrightarrow>
     \<not> contains a banned_mark \<and> list_all (contains a) REQUIRED_HEADINGS
     \<and> 6 \<le> count_sub a (str ''## '')
     \<and> (contains a (str ''- [ ]'') \<or> contains a (str ''- ''))
     \<and> \<not> fake_claim U a"
  by (auto simp: self_check_def heading_errors_empty_iff)








text \<open>A text in front that holds no first character of a needle changes nothing.\<close>

lemma contains_append_left: "contains a n \<Longrightarrow> contains (p @ a) n"
  by (induction p) simp_all





text \<open>\<open>needle in hay\<close> says that \<open>hay\<close> is some text, the needle, and some text.\<close>

lemma contains_iff: "contains a n \<longleftrightarrow> (\<exists>p s. a = p @ n @ s)"
proof
  assume "contains a n"
  then show "\<exists>p s. a = p @ n @ s"
  proof (induction a)
    case Nil
    then show ?case by simp
  next
    case (Cons c cs)
    show ?case
    proof (cases "take (length n) (c # cs) = n")
      case True
      then have "c # cs = [] @ n @ drop (length n) (c # cs)"
        by (metis append_Nil append_take_drop_id)
      then show ?thesis by blast
    next
      case False
      with Cons.prems have "contains cs n" by simp
      then obtain p s where "cs = p @ n @ s"
        using Cons.IH by blast
      then have "c # cs = (c # p) @ n @ s" by simp
      then show ?thesis by blast
    qed
  qed
next
  assume "\<exists>p s. a = p @ n @ s"
  then obtain p s where a: "a = p @ n @ s" by blast
  have "contains (n @ s) n"
  proof (cases "n @ s")
    case Nil
    then show ?thesis by simp
  next
    case (Cons c cs)
    have "take (length n) (n @ s) = n" by simp
    then show ?thesis
      unfolding Cons by simp
  qed
  then show "contains a n"
    unfolding a by (rule contains_append_left)
qed

text \<open>
  The marker \<open># \<close> is a piece of every \<open>## \<close> marker, so the message for the title is
  returned for no article that holds a \<open>## \<close> heading.
\<close>

lemma subheading_holds_title_marker:
  assumes "contains a (str ''## '')"
  shows "contains a (str ''# '')"
proof -
  obtain p s where "a = p @ str ''## '' @ s"
    using assms contains_iff by blast
  then have "a = (p @ str ''#'') @ str ''# '' @ s"
    by (simp add: str_def)
  then show ?thesis
    using contains_iff by blast
qed

lemma title_message_iff:
  "str ''Missing heading: # '' \<in> set (self_check U a) \<longleftrightarrow> \<not> contains a (str ''# '')"
  by (auto simp: self_check_def heading_errors_def REQUIRED_HEADINGS_def str_def)

lemma title_message_without_subheadings:
  assumes "str ''Missing heading: # '' \<in> set (self_check U a)"
  shows "\<not> contains a (str ''## '')"
  using assms subheading_holds_title_marker title_message_iff by blast





section \<open>Proofs: the article of the test\<close>

lemma replicate_numeral: "replicate (numeral k) x = x # replicate (pred_numeral k) x"
  by (simp add: numeral_eq_Suc)

lemma sample_codes: "sample_article =
     [10, 35, 32, 84, 105, 116, 108, 101, 10, 35, 35, 32, 72, 111, 111, 107, 10, 79, 112, 101,
      110, 105, 110, 103, 32, 104, 111, 111, 107, 46, 10, 35, 35, 32, 67, 111, 110, 116, 101,
      120, 116, 10, 67, 111, 110, 116, 101, 120, 116, 32, 115, 101, 99, 116, 105, 111, 110, 46,
      10, 35, 35, 32, 83, 101, 99, 116, 105, 111, 110, 32, 79, 110, 101, 10, 68, 101, 116, 97,
      105, 108, 115, 46, 10, 35, 35, 32, 83, 101, 99, 116, 105, 111, 110, 32, 84, 119, 111, 10,
      68, 101, 116, 97, 105, 108, 115, 46, 10, 35, 35, 32, 83, 101, 99, 116, 105, 111, 110, 32,
      84, 104, 114, 101, 101, 10, 68, 101, 116, 97, 105, 108, 115, 46, 10, 35, 35, 32, 87, 104,
      97, 116, 32, 116, 111, 32, 100, 111, 32, 110, 101, 120, 116, 10, 45, 32, 68, 111, 32,
      116, 104, 105, 115, 10, 45, 32, 68, 111, 32, 116, 104, 97, 116, 10, 35, 35, 32, 67, 111,
      110, 99, 108, 117, 115, 105, 111, 110, 10, 87, 114, 97, 112, 45, 117, 112, 46, 10, 83,
      69, 79, 32, 75, 101, 121, 119, 111, 114, 100, 115, 58, 32, 111, 110, 101, 44, 32, 116,
      119, 111, 44, 32, 116, 104, 114, 101, 101, 44, 32, 102, 111, 117, 114, 44, 32, 102, 105,
      118, 101, 10, 77, 101, 116, 97, 32, 68, 101, 115, 99, 114, 105, 112, 116, 105, 111, 110,
      58, 32, 120, 120, 120, 120, 120, 120, 120, 120, 120, 120, 120, 120, 120, 120, 120, 120,
      120, 120, 120, 120, 120, 120, 120, 120, 120, 120, 120, 120, 120, 120, 120, 120, 120, 120,
      120, 120, 120, 120, 120, 120, 120, 120, 120, 120, 120, 120, 120, 120, 120, 120, 120, 120,
      120, 120, 120, 120, 120, 120, 120, 120, 120, 120, 120, 120, 120, 120, 120, 120, 120, 120,
      120, 120, 120, 120, 120, 120, 120, 120, 120, 120, 120, 120, 120, 120, 120, 120, 120, 120,
      120, 120, 120, 120, 120, 120, 120, 120, 120, 120, 120, 120, 120, 120, 120, 120, 120, 120,
      120, 120, 120, 120, 120, 120, 120, 120, 120, 120, 120, 120, 120, 120, 120, 120, 120, 120,
      120, 120, 120, 120, 120, 120, 120, 120, 120, 120, 120, 120, 120, 120, 120, 120, 120, 120,
      120, 120, 120, 120, 120, 120, 120, 120, 120, 120, 120, 120, 120, 10, 83, 111, 99, 105,
      97, 108, 32, 83, 110, 105, 112, 112, 101, 116, 115, 58, 10, 76, 105, 110, 107, 101, 100,
      73, 110, 58, 32, 46, 46, 46, 10]"
  by (simp add: sample_article_def str_def replicate_numeral)

lemma count_sub_Nil: "count_sub [] (n # ns) = 0"
  by (simp add: count_sub.simps)

lemma count_sub_miss: "c \<noteq> n \<Longrightarrow> count_sub (c # cs) (n # ns) = count_sub cs (n # ns)"
  by (subst count_sub.simps) simp

lemma count_sub_hit:
  "count_sub (n # cs) (n # ns) =
     (if take (length ns) cs = ns then Suc (count_sub (drop (length ns) cs) (n # ns))
      else count_sub cs (n # ns))"
  by (subst count_sub.simps) simp

lemmas count_sub_eval = count_sub_Nil count_sub_miss count_sub_hit

lemma sample_headings: "list_all (contains sample_article) REQUIRED_HEADINGS"
  unfolding sample_codes by (simp add: REQUIRED_HEADINGS_def str_def)

lemma sample_sections: "count_sub sample_article (str ''## '') = 7"
  unfolding sample_codes by (simp add: str_def count_sub_eval)

lemma sample_bullets: "contains sample_article (str ''- '')"
  unfolding sample_codes by (simp add: str_def)


lemma sample_no_mark: "\<not> contains sample_article banned_mark"
  unfolding sample_codes by (simp add: banned_mark_def)

lemma sample_no_percent: "ord CHR ''%'' \<notin> set sample_article"
  unfolding sample_codes by simp








lemma sample_self_check: "self_check U sample_article = []"
  using sample_no_mark sample_headings sample_sections sample_bullets
    no_percent_no_claim [OF sample_no_percent, of U]
  by (simp add: self_check_empty_iff)

text \<open>
  Claim C2 on the code. The article of the test passes \<open>self_check\<close>. Without its title
  marker \<open># \<close> it still passes: the marker is looked for as a piece of the text, and every
  \<open>## \<close> heading holds \<open># \<close>, so no message names the missing title. Leaving out one of the
  other four markers is reported by the message that names it.
\<close>

theorem title_marker_omission_not_reported:
  "self_check U sample_article = []
   \<and> remove_first (str ''# '') sample_article = str ''\<newline>'' @ drop 3 sample_article
   \<and> self_check U (remove_first (str ''# '') sample_article) = []
   \<and> str ''Missing heading: ## Hook''
        \<in> set (self_check U (remove_first (str ''## Hook'') sample_article))
   \<and> str ''Missing heading: ## Context''
        \<in> set (self_check U (remove_first (str ''## Context'') sample_article))
   \<and> str ''Missing heading: ## What to do next''
        \<in> set (self_check U (remove_first (str ''## What to do next'') sample_article))
   \<and> str ''Missing heading: ## Conclusion''
        \<in> set (self_check U (remove_first (str ''## Conclusion'') sample_article))"
proof -
  have r: "remove_first (str ''# '') sample_article = str ''\<newline>'' @ drop 3 sample_article"
    unfolding sample_codes by (simp add: str_def)
  have "\<not> contains (str ''\<newline>'' @ drop 3 sample_article) banned_mark"
    unfolding sample_codes by (simp add: str_def banned_mark_def)
  moreover have "list_all (contains (str ''\<newline>'' @ drop 3 sample_article)) REQUIRED_HEADINGS"
    unfolding sample_codes by (simp add: REQUIRED_HEADINGS_def str_def)
  moreover have "count_sub (str ''\<newline>'' @ drop 3 sample_article) (str ''## '') = 7"
    unfolding sample_codes by (simp add: str_def count_sub_eval)
  moreover have "contains (str ''\<newline>'' @ drop 3 sample_article) (str ''- '')"
    unfolding sample_codes by (simp add: str_def)
  moreover have "ord CHR ''%'' \<notin> set (str ''\<newline>'' @ drop 3 sample_article)"
    unfolding sample_codes by (simp add: str_def)
  then have "\<not> fake_claim U (str ''\<newline>'' @ drop 3 sample_article)"
    by (rule no_percent_no_claim)
  ultimately have title: "self_check U (remove_first (str ''# '') sample_article) = []"
    unfolding r by (simp add: self_check_empty_iff)
  have "str ''## Hook'' \<in> set REQUIRED_HEADINGS"
    by (simp add: REQUIRED_HEADINGS_def)
  moreover have "\<not> contains (remove_first (str ''## Hook'') sample_article) (str ''## Hook'')"
    unfolding sample_codes by (simp add: str_def)
  ultimately have "str ''Missing heading: '' @ str ''## Hook''
      \<in> set (self_check U (remove_first (str ''## Hook'') sample_article))"
    by (rule missing_heading_reported)
  then have hook: "str ''Missing heading: ## Hook''
      \<in> set (self_check U (remove_first (str ''## Hook'') sample_article))"
    by (simp add: str_def)
  have "str ''## Context'' \<in> set REQUIRED_HEADINGS"
    by (simp add: REQUIRED_HEADINGS_def)
  moreover have "\<not> contains (remove_first (str ''## Context'') sample_article) (str ''## Context'')"
    unfolding sample_codes by (simp add: str_def)
  ultimately have "str ''Missing heading: '' @ str ''## Context''
      \<in> set (self_check U (remove_first (str ''## Context'') sample_article))"
    by (rule missing_heading_reported)
  then have ctx: "str ''Missing heading: ## Context''
      \<in> set (self_check U (remove_first (str ''## Context'') sample_article))"
    by (simp add: str_def)
  have "str ''## What to do next'' \<in> set REQUIRED_HEADINGS"
    by (simp add: REQUIRED_HEADINGS_def)
  moreover have "\<not> contains (remove_first (str ''## What to do next'') sample_article)
      (str ''## What to do next'')"
    unfolding sample_codes by (simp add: str_def)
  ultimately have "str ''Missing heading: '' @ str ''## What to do next''
      \<in> set (self_check U (remove_first (str ''## What to do next'') sample_article))"
    by (rule missing_heading_reported)
  then have nxt: "str ''Missing heading: ## What to do next''
      \<in> set (self_check U (remove_first (str ''## What to do next'') sample_article))"
    by (simp add: str_def)
  have "str ''## Conclusion'' \<in> set REQUIRED_HEADINGS"
    by (simp add: REQUIRED_HEADINGS_def)
  moreover have "\<not> contains (remove_first (str ''## Conclusion'') sample_article)
      (str ''## Conclusion'')"
    unfolding sample_codes by (simp add: str_def)
  ultimately have "str ''Missing heading: '' @ str ''## Conclusion''
      \<in> set (self_check U (remove_first (str ''## Conclusion'') sample_article))"
    by (rule missing_heading_reported)
  then have concl: "str ''Missing heading: ## Conclusion''
      \<in> set (self_check U (remove_first (str ''## Conclusion'') sample_article))"
    by (simp add: str_def)
  from sample_self_check [of U] r title hook ctx nxt concl show ?thesis
    by (intro conjI)
qed





section \<open>Proofs: validate_meta\<close>

text \<open>
  Claim C10, as stated, fails: a dictionary whose \<open>keywords\<close> entry is a number makes
  \<open>len\<close> raise \<open>TypeError\<close>, and \<open>validate_meta\<close> does not catch it.
\<close>

theorem validate_meta_raises_on_number:
  "validate_meta [(str ''keywords'', PInt 5)] = Inl TypeError"
  by (simp add: validate_meta_def dict_get_def)

text \<open>
  Claim C10, as amended. On every meta dictionary whose \<open>keywords\<close> and \<open>description\<close>
  entries, where present, are values with a length (strings, lists, dictionaries),
  \<open>validate_meta\<close> returns, and its result is exactly the list of the applicable messages,
  in the order of the checks: the 5-item message when the keywords do not number 5, the
  length message when the description is not 155 to 160 long, the title message when the
  title is missing or false. A missing \<open>keywords\<close> key gives the 5-item message, a missing
  \<open>description\<close> key the length message, a missing or empty title the title message.
\<close>

theorem validate_meta_total_on_sized:
  assumes "sized (dict_get m (str ''keywords'') (PList []))"
    and "sized (dict_get m (str ''description'') (PStr []))"
  shows
    "(\<exists>errors.
        validate_meta m = Inr errors
        \<and> errors =
            (if size_of (dict_get m (str ''keywords'') (PList [])) \<noteq> 5
             then [str ''Keywords must include 5 items.''] else [])
            @ (if \<not> (155 \<le> size_of (dict_get m (str ''description'') (PStr []))
                     \<and> size_of (dict_get m (str ''description'') (PStr [])) \<le> 160)
               then [str ''Description must be 155-160 characters.''] else [])
            @ (if \<not> truthy (dict_get m (str ''title'') PNone)
               then [str ''Title missing.''] else [])
        \<and> (map_of m (str ''keywords'') = None
             \<longrightarrow> str ''Keywords must include 5 items.'' \<in> set errors)
        \<and> (map_of m (str ''description'') = None
             \<longrightarrow> str ''Description must be 155-160 characters.'' \<in> set errors)
        \<and> (map_of m (str ''title'') = None \<or> map_of m (str ''title'') = Some (PStr [])
             \<longrightarrow> str ''Title missing.'' \<in> set errors))"
proof -
  obtain n where n: "py_len (dict_get m (str ''keywords'') (PList [])) = Inr n"
    using assms(1) by (auto simp: sized_def split: sum.splits)
  obtain dl where dl: "py_len (dict_get m (str ''description'') (PStr [])) = Inr dl"
    using assms(2) by (auto simp: sized_def split: sum.splits)
  have missing_kw: "map_of m (str ''keywords'') = None \<Longrightarrow> n = 0"
    using n by (simp add: dict_get_def)
  have missing_d: "map_of m (str ''description'') = None \<Longrightarrow> dl = 0"
    using dl by (simp add: dict_get_def)
  have title: "map_of m (str ''title'') = None \<or> map_of m (str ''title'') = Some (PStr [])
      \<Longrightarrow> \<not> truthy (dict_get m (str ''title'') PNone)"
    by (auto simp: dict_get_def)
  show ?thesis
    using n dl missing_kw missing_d title
    by (auto simp: validate_meta_def size_of_def)
qed

theorem validate_meta_total_on_sized_witness:
  "sized (dict_get [] (str ''keywords'') (PList []))
   \<and> sized (dict_get [] (str ''description'') (PStr []))
   \<and> validate_meta [] =
       Inr [str ''Keywords must include 5 items.'',
            str ''Description must be 155-160 characters.'', str ''Title missing.'']"
proof -
  have a: "sized (dict_get [] (str ''keywords'') (PList []))"
    by (simp add: sized_def dict_get_def)
  have b: "sized (dict_get [] (str ''description'') (PStr []))"
    by (simp add: sized_def dict_get_def)
  show ?thesis
    using a b validate_meta_total_on_sized [OF a b]
    by (auto simp: size_of_def dict_get_def)
qed

section \<open>Proofs: the metadata schema\<close>

lemma map_of_dict_set: "map_of (dict_set d k v) k = Some v"
  by (induction d k v rule: dict_set.induct) auto

lemma keys_dict_set: "fst ` set (dict_set d k v) = insert k (fst ` set d)"
  by (induction d k v rule: dict_set.induct) auto

lemma keys_dict_del: "fst ` set (dict_del d k) = fst ` set d - {k}"
  by (auto simp: dict_del_def image_iff)

lemma meta_keys_distinct:
  "str ''title'' \<noteq> str ''keywords''" "str ''title'' \<noteq> str ''description''"
  "str ''title'' \<noteq> str ''platform''" "str ''title'' \<noteq> str ''date''"
  "str ''title'' \<noteq> str ''slug''" "str ''keywords'' \<noteq> str ''description''"
  "str ''keywords'' \<noteq> str ''platform''" "str ''keywords'' \<noteq> str ''date''"
  "str ''keywords'' \<noteq> str ''slug''" "str ''description'' \<noteq> str ''platform''"
  "str ''description'' \<noteq> str ''date''" "str ''description'' \<noteq> str ''slug''"
  "str ''platform'' \<noteq> str ''date''" "str ''platform'' \<noteq> str ''slug''"
  "str ''date'' \<noteq> str ''slug''"
  by (simp_all add: str_def)

lemma valid_string_schema: "valid string_schema v \<longleftrightarrow> (\<exists>s. v = PStr s)"
  by (cases v) (simp_all add: string_schema_def has_type_def at_least_def at_most_def)

text \<open>What \<open>META_SCHEMA\<close> asks of a dictionary, keyword by keyword.\<close>

lemma valid_META_SCHEMA:
  "valid META_SCHEMA (PDict m) \<longleftrightarrow>
     (\<forall>v. map_of m (str ''title'') = Some v \<longrightarrow> (\<exists>s. v = PStr s))
     \<and> (\<forall>v. map_of m (str ''keywords'') = Some v \<longrightarrow>
            (\<exists>xs. v = PList xs \<and> (\<forall>x\<in>set xs. \<exists>s. x = PStr s) \<and> length xs = 5))
     \<and> (\<forall>v. map_of m (str ''description'') = Some v \<longrightarrow>
            (\<exists>s. v = PStr s \<and> 155 \<le> length s \<and> length s \<le> 160))
     \<and> (\<forall>v. map_of m (str ''platform'') = Some v \<longrightarrow> (\<exists>s. v = PStr s))
     \<and> (\<forall>v. map_of m (str ''date'') = Some v \<longrightarrow> (\<exists>s. v = PStr s))
     \<and> (\<forall>v. map_of m (str ''slug'') = Some v \<longrightarrow> (\<exists>s. v = PStr s))
     \<and> set meta_keys \<subseteq> fst ` set m
     \<and> fst ` set m \<subseteq> set meta_keys"
proof -
  have kw: "valid (Schema (Some TArray) [] [] True (Some string_schema) (Some 5) (Some 5) None None) v
      \<longleftrightarrow> (\<exists>xs. v = PList xs \<and> (\<forall>x\<in>set xs. \<exists>s. x = PStr s) \<and> length xs = 5)" for v
    by (cases v) (auto simp: has_type_def at_least_def at_most_def list_all_iff valid_string_schema)
  have ds: "valid (Schema (Some TString) [] [] True None None None (Some 155) (Some 160)) v
      \<longleftrightarrow> (\<exists>s. v = PStr s \<and> 155 \<le> length s \<and> length s \<le> 160)" for v
    by (cases v) (auto simp: has_type_def at_least_def at_most_def)
  have all_some: "(case x of None \<Rightarrow> True | Some y \<Rightarrow> P y) \<longleftrightarrow> (\<forall>v. x = Some v \<longrightarrow> P v)"
    for x :: "pyval option" and P
    by (cases x) simp_all
  have extra: "list_all (\<lambda>(k, x). k \<in> K) m \<longleftrightarrow> fst ` set m \<subseteq> K" for K :: "pystr set"
    by (auto simp: list_all_iff)
  have req: "list_all (\<lambda>k. k \<in> fst ` set m) meta_keys \<longleftrightarrow> set meta_keys \<subseteq> fst ` set m"
    by (auto simp: list_all_iff)
  have "valid META_SCHEMA (PDict m) \<longleftrightarrow>
      (case map_of m (str ''title'') of None \<Rightarrow> True | Some x \<Rightarrow> valid string_schema x)
      \<and> (case map_of m (str ''keywords'') of None \<Rightarrow> True
          | Some x \<Rightarrow> valid (Schema (Some TArray) [] [] True (Some string_schema) (Some 5) (Some 5) None None) x)
      \<and> (case map_of m (str ''description'') of None \<Rightarrow> True
          | Some x \<Rightarrow> valid (Schema (Some TString) [] [] True None None None (Some 155) (Some 160)) x)
      \<and> (case map_of m (str ''platform'') of None \<Rightarrow> True | Some x \<Rightarrow> valid string_schema x)
      \<and> (case map_of m (str ''date'') of None \<Rightarrow> True | Some x \<Rightarrow> valid string_schema x)
      \<and> (case map_of m (str ''slug'') of None \<Rightarrow> True | Some x \<Rightarrow> valid string_schema x)
      \<and> list_all (\<lambda>k. k \<in> fst ` set m) meta_keys
      \<and> list_all (\<lambda>(k, x). k \<in> set meta_keys) m"
    by (simp add: META_SCHEMA_def has_type_def meta_keys_def conj_ac)
  then show ?thesis
    by (simp only: all_some kw ds valid_string_schema extra req)
qed

text \<open>
  Claim C5. A meta object with exactly the six required keys, string values for title,
  platform, date and slug, five string keywords and a description of 155 to 160
  characters passes the validation against \<open>META_SCHEMA\<close>. The validation fails when a
  required key is deleted, when another key is added, when the keywords are replaced by
  4 or by 6 strings, and when the description is replaced by one of 154 or of 161
  characters.
\<close>

theorem meta_schema_acceptance:
  assumes "fst ` set m = set meta_keys"
    and "map_of m (str ''title'') = Some (PStr title)"
    and "map_of m (str ''keywords'') = Some (PList (map PStr ks))"
    and "length ks = 5"
    and "map_of m (str ''description'') = Some (PStr d)"
    and "155 \<le> length d" and "length d \<le> 160"
    and "map_of m (str ''platform'') = Some (PStr platform)"
    and "map_of m (str ''date'') = Some (PStr date)"
    and "map_of m (str ''slug'') = Some (PStr slug)"
  shows
    "validate_meta_schema m = Inr ()
     \<and> (\<forall>k\<in>set meta_keys. validate_meta_schema (dict_del m k) = Inl ValidationError)
     \<and> (\<forall>k v. k \<notin> set meta_keys \<longrightarrow> validate_meta_schema (dict_set m k v) = Inl ValidationError)
     \<and> (\<forall>ks'. length ks' = 4 \<or> length ks' = 6 \<longrightarrow>
            validate_meta_schema (dict_set m (str ''keywords'') (PList (map PStr ks')))
            = Inl ValidationError)
     \<and> (\<forall>d'. length d' = 154 \<or> length d' = 161 \<longrightarrow>
            validate_meta_schema (dict_set m (str ''description'') (PStr d'))
            = Inl ValidationError)"
proof -
  have ok: "valid META_SCHEMA (PDict m)"
    using assms by (auto simp: valid_META_SCHEMA)
  have del: "\<not> valid META_SCHEMA (PDict (dict_del m k))" if "k \<in> set meta_keys" for k
    using that by (auto simp: valid_META_SCHEMA keys_dict_del)
  have add: "\<not> valid META_SCHEMA (PDict (dict_set m k v))" if "k \<notin> set meta_keys" for k v
    using that by (auto simp: valid_META_SCHEMA keys_dict_set)
  have kws: "\<not> valid META_SCHEMA (PDict (dict_set m (str ''keywords'') (PList (map PStr ks'))))"
    if "length ks' = 4 \<or> length ks' = 6" for ks'
    using that by (auto simp: valid_META_SCHEMA map_of_dict_set)
  have desc: "\<not> valid META_SCHEMA (PDict (dict_set m (str ''description'') (PStr d')))"
    if "length d' = 154 \<or> length d' = 161" for d'
    using that by (auto simp: valid_META_SCHEMA map_of_dict_set)
  show ?thesis
    using ok del add kws desc by (simp add: validate_meta_schema_def)
qed

theorem meta_schema_acceptance_witness:
  "validate_meta_schema sample_meta = Inr ()
   \<and> validate_meta_schema (dict_del sample_meta (str ''slug'')) = Inl ValidationError
   \<and> validate_meta_schema (dict_set sample_meta (str ''author'') (PStr (str ''me'')))
       = Inl ValidationError
   \<and> validate_meta_schema
         (dict_set sample_meta (str ''keywords'')
            (PList (map PStr [str ''one'', str ''two'', str ''three'', str ''four''])))
       = Inl ValidationError
   \<and> validate_meta_schema
         (dict_set sample_meta (str ''description'') (PStr (replicate 161 (ord CHR ''x''))))
       = Inl ValidationError"
proof -
  have keys: "fst ` set sample_meta = set meta_keys"
    by (simp add: sample_meta_def meta_keys_def)
  have t: "map_of sample_meta (str ''title'') = Some (PStr (str ''Test''))"
    by (simp add: sample_meta_def)
  have k: "map_of sample_meta (str ''keywords'')
      = Some (PList (map PStr [str ''one'', str ''two'', str ''three'', str ''four'', str ''five'']))"
    using meta_keys_distinct by (simp add: sample_meta_def)
  have d: "map_of sample_meta (str ''description'') = Some (PStr (replicate 155 (ord CHR ''x'')))"
    using meta_keys_distinct by (simp add: sample_meta_def)
  have p: "map_of sample_meta (str ''platform'') = Some (PStr (str ''linkedin''))"
    using meta_keys_distinct by (simp add: sample_meta_def)
  have dt: "map_of sample_meta (str ''date'') = Some (PStr (str ''2024-01-02''))"
    using meta_keys_distinct by (simp add: sample_meta_def)
  have s: "map_of sample_meta (str ''slug'') = Some (PStr (str ''test''))"
    using meta_keys_distinct by (simp add: sample_meta_def)
  have author: "str ''author'' \<notin> set meta_keys"
    by (simp add: meta_keys_def str_def)
  have slug: "str ''slug'' \<in> set meta_keys"
    by (simp add: meta_keys_def)
  note all = meta_schema_acceptance [OF keys t k _ d _ _ p dt s]
  have "length [str ''one'', str ''two'', str ''three'', str ''four'', str ''five''] = 5"
    and "155 \<le> length (replicate 155 (ord CHR ''x''))"
    and "length (replicate 155 (ord CHR ''x'')) \<le> 160"
    by simp_all
  note facts = all [OF this]
  have a: "validate_meta_schema sample_meta = Inr ()"
    using facts by blast
  have b: "validate_meta_schema (dict_del sample_meta (str ''slug'')) = Inl ValidationError"
    using facts slug by blast
  have c: "validate_meta_schema (dict_set sample_meta (str ''author'') (PStr (str ''me'')))
      = Inl ValidationError"
    using facts author by blast
  have "\<forall>ks'. length ks' = 4 \<or> length ks' = 6 \<longrightarrow>
      validate_meta_schema (dict_set sample_meta (str ''keywords'') (PList (map PStr ks')))
      = Inl ValidationError"
    using facts by blast
  from this [rule_format, of "[str ''one'', str ''two'', str ''three'', str ''four'']"]
  have e: "validate_meta_schema
         (dict_set sample_meta (str ''keywords'')
            (PList (map PStr [str ''one'', str ''two'', str ''three'', str ''four''])))
       = Inl ValidationError"
    by simp
  have "\<forall>d'. length d' = 154 \<or> length d' = 161 \<longrightarrow>
      validate_meta_schema (dict_set sample_meta (str ''description'') (PStr d'))
      = Inl ValidationError"
    using facts by blast
  from this [rule_format, of "replicate 161 (ord CHR ''x'')"]
  have f: "validate_meta_schema
         (dict_set sample_meta (str ''description'') (PStr (replicate 161 (ord CHR ''x''))))
       = Inl ValidationError"
    by simp
  from a b c e f show ?thesis by blast
qed


section \<open>Proofs: the pipeline\<close>

lemma requests_append: "requests (tr @ tr') = requests tr @ requests tr'"
  by (induction tr rule: requests.induct) simp_all

lemma request_completion_eq:
  "request_completion B cfg prompt tr =
     (strip (B (requests tr) (completion_request cfg prompt)),
      tr @ [BackendCall (completion_request cfg prompt)])"
  by (simp add: request_completion_def call_backend_def)

lemma extract_meta_length: "length (fst (extract_meta a)) \<le> 5"
  by (simp add: extract_meta_def Let_def)

text \<open>
  Claim C4, as stated, fails: it says that after a failed \<open>self_check\<close> the article
  returned is never the original failing text. \<open>generate_package\<close> assigns whatever the
  revision call returns and does not check it again, so a backend that gives the same
  answer to every request returns the failing text once more: the first article fails
  \<open>self_check\<close>, 3 calls are made, and the article returned is that first article.
\<close>

theorem generate_package_returns_failing_text:
  "fst (generate_article two_keyword_backend sample_config
          (fst (generate_outline two_keyword_backend sample_config (str ''Inbox zero'')
                  (str ''Founders'') (str ''linkedin'') 1200 (str ''friendly'') []))
          (str ''Inbox zero'') (str ''Founders'') (str ''linkedin'') 1200 (str ''friendly'')
          (snd (generate_outline two_keyword_backend sample_config (str ''Inbox zero'')
                  (str ''Founders'') (str ''linkedin'') 1200 (str ''friendly'') [])))
     = str ''SEO Keywords: crm, email''
   \<and> self_check ascii_only (str ''SEO Keywords: crm, email'') \<noteq> []
   \<and> length (requests (snd (generate_package two_keyword_backend ascii_only sample_config
         (str ''Inbox zero'') (str ''Founders'') (str ''linkedin'') 1200 (str ''friendly'') [])))
       = 3
   \<and> article (fst (generate_package two_keyword_backend ascii_only sample_config
         (str ''Inbox zero'') (str ''Founders'') (str ''linkedin'') 1200 (str ''friendly'') []))
       = str ''SEO Keywords: crm, email''"
proof -
  have s: "strip (str ''SEO Keywords: crm, email'') = str ''SEO Keywords: crm, email''"
    by (simp add: strip_def str_def is_space_def)
  have "str ''## Hook'' \<in> set REQUIRED_HEADINGS"
    by (simp add: REQUIRED_HEADINGS_def)
  moreover have "\<not> contains (str ''SEO Keywords: crm, email'') (str ''## Hook'')"
    by (simp add: str_def)
  ultimately have "str ''Missing heading: '' @ str ''## Hook''
      \<in> set (self_check ascii_only (str ''SEO Keywords: crm, email''))"
    by (rule missing_heading_reported)
  then have errs: "self_check ascii_only (str ''SEO Keywords: crm, email'') \<noteq> []"
    by auto
  show ?thesis
    using s errs
    by (simp add: generate_package_def generate_outline_def generate_article_def
        revise_article_def request_completion_eq two_keyword_backend_def requests_append
        Let_def split: prod.splits)
qed

text \<open>
  Claim C4, as amended. Whatever the backend answers: \<open>generate_package\<close> first calls the
  backend for the outline and for the article. When \<open>self_check\<close> of that article is clean,
  no further call is made, the article is returned as it is, and 2 calls were made. When
  \<open>self_check\<close> reports errors, exactly one more call is made, the revision call with the
  prompt built from the article and the errors, 3 calls were made, and the article returned
  is the stripped answer to the revision call, the text that \<open>revise_article\<close> returns,
  whether or not it differs from the text that failed.
\<close>

theorem generate_package_revision_calls:
  assumes "generate_outline B cfg topic audience platform words tone tr = (outline, tr1)"
    and "generate_article B cfg outline topic audience platform words tone tr1 = (article0, tr2)"
    and "generate_package B U cfg topic audience platform words tone tr = (pkg, tr3)"
  shows
    "tr2 = tr @ [BackendCall (completion_request cfg
                    (outline_prompt cfg topic audience platform words tone)),
                 BackendCall (completion_request cfg
                    (article_prompt cfg outline topic audience platform words tone))]
     \<and> (self_check U article0 = [] \<longrightarrow>
          tr3 = tr2 \<and> article pkg = article0
          \<and> length (requests tr3) = length (requests tr) + 2)
     \<and> (self_check U article0 \<noteq> [] \<longrightarrow>
          (article pkg, tr3) = revise_article B cfg article0 (self_check U article0) tr2
          \<and> tr3 = tr2 @ [BackendCall (completion_request cfg
                             (revise_prompt article0 (self_check U article0)))]
          \<and> article pkg = strip (B (requests tr2) (completion_request cfg
                                     (revise_prompt article0 (self_check U article0))))
          \<and> length (requests tr3) = length (requests tr) + 3)"
proof -
  let ?r1 = "completion_request cfg (outline_prompt cfg topic audience platform words tone)"
  let ?r2 = "completion_request cfg (article_prompt cfg outline topic audience platform words tone)"
  have o: "outline = strip (B (requests tr) ?r1)" and t1: "tr1 = tr @ [BackendCall ?r1]"
    using assms(1) by (simp_all add: generate_outline_def request_completion_eq)
  have a: "article0 = strip (B (requests tr1) ?r2)" and t2: "tr2 = tr1 @ [BackendCall ?r2]"
    using assms(2) by (simp_all add: generate_article_def request_completion_eq)
  have t2': "tr2 = tr @ [BackendCall ?r1, BackendCall ?r2]"
    using t1 t2 by simp
  have n2: "length (requests tr2) = length (requests tr) + 2"
    by (simp add: t2' requests_append)
  show ?thesis
  proof (cases "self_check U article0 = []")
    case True
    have "pkg = fst (generate_package B U cfg topic audience platform words tone tr)"
      and "tr3 = snd (generate_package B U cfg topic audience platform words tone tr)"
      using assms(3) by simp_all
    then have "article pkg = article0" and "tr3 = tr2"
      using True assms(1,2)
      by (simp_all add: generate_package_def Let_def split: prod.splits)
    with True t2' n2 show ?thesis by simp
  next
    case False
    let ?r3 = "completion_request cfg (revise_prompt article0 (self_check U article0))"
    have rev: "revise_article B cfg article0 (self_check U article0) tr2
        = (strip (B (requests tr2) ?r3), tr2 @ [BackendCall ?r3])"
      by (simp add: revise_article_def request_completion_eq)
    have "pkg = fst (generate_package B U cfg topic audience platform words tone tr)"
      and "tr3 = snd (generate_package B U cfg topic audience platform words tone tr)"
      using assms(3) by simp_all
    then have art: "article pkg = strip (B (requests tr2) ?r3)"
      and t3: "tr3 = tr2 @ [BackendCall ?r3]"
      using False assms(1,2) rev
      by (simp_all add: generate_package_def Let_def split: prod.splits)
    have n3: "length (requests tr3) = length (requests tr) + 3"
      using n2 by (simp add: t3 requests_append)
    from False t2' art t3 n3 rev show ?thesis by simp
  qed
qed

theorem generate_package_revision_calls_witness:
  "self_check ascii_only (str ''A first draft.'') \<noteq> []
   \<and> article (fst (generate_package draft_backend ascii_only sample_config (str ''Inbox zero'')
         (str ''Founders'') (str ''linkedin'') 1200 (str ''friendly'') []))
       = str ''A revised draft.''
   \<and> length (requests (snd (generate_package draft_backend ascii_only sample_config
         (str ''Inbox zero'') (str ''Founders'') (str ''linkedin'') 1200 (str ''friendly'') [])))
       = 3"
proof -
  let ?gp = "generate_package draft_backend ascii_only sample_config (str ''Inbox zero'')
         (str ''Founders'') (str ''linkedin'') 1200 (str ''friendly'') []"
  obtain outline tr1 where o: "generate_outline draft_backend sample_config (str ''Inbox zero'')
      (str ''Founders'') (str ''linkedin'') 1200 (str ''friendly'') [] = (outline, tr1)"
    by fastforce
  obtain article0 tr2 where a: "generate_article draft_backend sample_config outline
      (str ''Inbox zero'') (str ''Founders'') (str ''linkedin'') 1200 (str ''friendly'') tr1
      = (article0, tr2)"
    by fastforce
  obtain pkg tr3 where p: "?gp = (pkg, tr3)"
    by fastforce
  note facts = generate_package_revision_calls [OF o a p]
  have first: "strip (str ''  A first draft.\<newline>'') = str ''A first draft.''"
    by (simp add: strip_def str_def is_space_def)
  have tr1: "tr1 = [BackendCall (completion_request sample_config
      (outline_prompt sample_config (str ''Inbox zero'') (str ''Founders'') (str ''linkedin'') 1200
         (str ''friendly'')))]"
    using o by (simp add: generate_outline_def request_completion_eq)
  have a0: "article0 = str ''A first draft.''"
    using a first by (simp add: generate_article_def request_completion_eq draft_backend_def tr1)
  have "str ''## Hook'' \<in> set REQUIRED_HEADINGS"
    by (simp add: REQUIRED_HEADINGS_def)
  moreover have "\<not> contains (str ''A first draft.'') (str ''## Hook'')"
    by (simp add: str_def)
  ultimately have "str ''Missing heading: '' @ str ''## Hook''
      \<in> set (self_check ascii_only (str ''A first draft.''))"
    by (rule missing_heading_reported)
  then have errs: "self_check ascii_only (str ''A first draft.'') \<noteq> []"
    by auto
  have two: "length (requests tr2) = 2"
    using facts by (simp add: requests_append)
  have strip2: "strip (str ''A revised draft.'') = str ''A revised draft.''"
    by (simp add: strip_def str_def is_space_def)
  have "article pkg = str ''A revised draft.''" and "length (requests tr3) = 3"
    using facts errs a0 two strip2 by (simp_all add: draft_backend_def)
  with errs p show ?thesis by simp
qed

text \<open>
  Claim C9. Whatever the backend answers, the keywords of the meta object that
  \<open>generate_package\<close> returns are a list of 1 to 5 strings: the extraction gives at most 5,
  the 5 fallback keywords stand in only when it gives none, and 1 to 4 extracted keywords
  are passed on unchanged. Fewer than 5 keywords are reported by \<open>validate_meta\<close> once the
  caller has filled in slug and date.
\<close>

theorem generate_package_keywords_bounds:
  assumes "generate_package B U cfg topic audience platform words tone tr = (pkg, tr')"
  shows
    "(\<exists>kws. map_of (meta pkg) (str ''keywords'') = Some (PList (map PStr kws))
        \<and> 1 \<le> length kws \<and> length kws \<le> 5
        \<and> length (fst (extract_meta (article pkg))) \<le> 5
        \<and> length fallback_keywords = 5
        \<and> (fst (extract_meta (article pkg)) = [] \<longrightarrow> kws = fallback_keywords)
        \<and> (fst (extract_meta (article pkg)) \<noteq> [] \<longrightarrow> kws = fst (extract_meta (article pkg)))
        \<and> (length kws < 5 \<longrightarrow>
             (\<exists>errors. validate_meta (dict_set (dict_set (meta pkg) (str ''slug'') (PStr slug))
                                         (str ''date'') (PStr today)) = Inr errors
                \<and> str ''Keywords must include 5 items.'' \<in> set errors)))"
proof -
  obtain outline tr1 where o:
    "generate_outline B cfg topic audience platform words tone tr = (outline, tr1)"
    by fastforce
  obtain article0 tr2 where a:
    "generate_article B cfg outline topic audience platform words tone tr1 = (article0, tr2)"
    by fastforce
  obtain article1 tr3 where r:
    "(if self_check U article0 \<noteq> [] then revise_article B cfg article0 (self_check U article0) tr2
      else (article0, tr2)) = (article1, tr3)"
    by fastforce
  obtain ks description where e: "extract_meta article1 = (ks, description)"
    by fastforce
  let ?kws = "if ks \<noteq> [] then ks else fallback_keywords"
  have pkg: "pkg = \<lparr>article = article1, social = extract_social article1,
      meta = [(str ''title'', PStr topic), (str ''keywords'', PList (map PStr ?kws)),
              (str ''description'', PStr description), (str ''platform'', PStr platform),
              (str ''slug'', PStr [])]\<rparr>"
    using assms o a r e by (simp add: generate_package_def Let_def)
  have k5: "length ks \<le> 5"
    using extract_meta_length [of article1] e by simp
  have f5: "length fallback_keywords = 5"
    by (simp add: fallback_keywords_def)
  have lookup: "map_of (meta pkg) (str ''keywords'') = Some (PList (map PStr ?kws))"
    using meta_keys_distinct by (simp add: pkg)
  have bounds: "1 \<le> length ?kws \<and> length ?kws \<le> 5"
    using k5 f5 by (cases ks) simp_all
  have later: "\<exists>errors. validate_meta (dict_set (dict_set (meta pkg) (str ''slug'') (PStr slug))
                                         (str ''date'') (PStr today)) = Inr errors
                \<and> str ''Keywords must include 5 items.'' \<in> set errors"
    if "length ?kws < 5"
    using that meta_keys_distinct
    by (simp add: pkg validate_meta_def dict_get_def)
  have ex: "fst (extract_meta (article pkg)) = ks"
    using e by (simp add: pkg)
  show ?thesis
    using lookup bounds k5 f5 later ex
    by (intro exI [of _ ?kws]) simp
qed

lemma constant_backend_article:
  assumes "\<And>history req. B history req = text"
  shows "article (fst (generate_package B U cfg topic audience platform words tone tr)) = strip text"
  using assms
  by (simp add: generate_package_def generate_outline_def generate_article_def revise_article_def
      request_completion_eq Let_def split: prod.splits)

theorem generate_package_keywords_bounds_witness:
  "fst (extract_meta (str ''SEO Keywords: crm, email'')) = [str ''crm'', str ''email'']
   \<and> map_of (meta (fst (generate_package two_keyword_backend ascii_only sample_config
          (str ''Inbox zero'') (str ''Founders'') (str ''linkedin'') 1200 (str ''friendly'') [])))
        (str ''keywords'')
       = Some (PList [PStr (str ''crm''), PStr (str ''email'')])"
proof -
  let ?gp = "generate_package two_keyword_backend ascii_only sample_config
          (str ''Inbox zero'') (str ''Founders'') (str ''linkedin'') 1200 (str ''friendly'') []"
  have p: "?gp = (fst ?gp, snd ?gp)"
    by simp
  have "strip (str ''SEO Keywords: crm, email'') = str ''SEO Keywords: crm, email''"
    by (simp add: strip_def str_def is_space_def)
  then have art: "article (fst ?gp) = str ''SEO Keywords: crm, email''"
    using constant_backend_article [of two_keyword_backend "str ''SEO Keywords: crm, email''"]
    by (simp add: two_keyword_backend_def)
  have ex: "fst (extract_meta (str ''SEO Keywords: crm, email'')) = [str ''crm'', str ''email'']"
    by (simp add: extract_meta_def str_def after_label_def is_space_def not_newline_def
        comma_or_semicolon_def strip_def)
  from generate_package_keywords_bounds [OF p, of "[]" "[]"]
  obtain kws where
    "map_of (meta (fst ?gp)) (str ''keywords'') = Some (PList (map PStr kws))"
    and "fst (extract_meta (article (fst ?gp))) \<noteq> [] \<longrightarrow> kws = fst (extract_meta (article (fst ?gp)))"
    by blast
  with art ex show ?thesis by simp
qed

text \<open>The meta object and the snippets are read off the article that is returned.\<close>

lemma generate_package_meta:
  assumes "generate_package B U cfg topic audience platform words tone tr = (pkg, tr')"
  shows "meta pkg =
           [(str ''title'', PStr topic),
            (str ''keywords'',
               PList (map PStr (if fst (extract_meta (article pkg)) \<noteq> []
                                then fst (extract_meta (article pkg)) else fallback_keywords))),
            (str ''description'', PStr (snd (extract_meta (article pkg)))),
            (str ''platform'', PStr platform),
            (str ''slug'', PStr [])]"
    and "social pkg = extract_social (article pkg)"
  using assms by (auto simp: generate_package_def Let_def split: prod.splits)

lemma first_draft_has_errors: "self_check U (str ''A first draft.'') \<noteq> []"
proof -
  have "str ''## Hook'' \<in> set REQUIRED_HEADINGS"
    by (simp add: REQUIRED_HEADINGS_def)
  moreover have "\<not> contains (str ''A first draft.'') (str ''## Hook'')"
    by (simp add: str_def)
  ultimately have "str ''Missing heading: '' @ str ''## Hook''
      \<in> set (self_check U (str ''A first draft.''))"
    by (rule missing_heading_reported)
  then show ?thesis by auto
qed

lemma draft_backend_article:
  "article (fst (generate_package draft_backend U cfg topic audience platform words tone []))
     = str ''A revised draft.''"
proof -
  have first: "strip (str ''  A first draft.\<newline>'') = str ''A first draft.''"
    by (simp add: strip_def str_def is_space_def)
  have second: "strip (str ''A revised draft.'') = str ''A revised draft.''"
    by (simp add: strip_def str_def is_space_def)
  show ?thesis
    using first second first_draft_has_errors [of U]
    by (simp add: generate_package_def generate_outline_def generate_article_def
        revise_article_def request_completion_eq draft_backend_def requests_append Let_def
        split: prod.splits)
qed


section \<open>Proofs: generate_topics\<close>

text \<open>The part of the contract that holds: no braces in the answer, no topics, no error.\<close>

lemma generate_topics_empty_without_braces:
  assumes "raw = strip (B (requests tr)
             \<lparr>req_model = mn, req_input = topics_prompt ps n, req_temperature = t,
              req_max_output_tokens = 600\<rparr>)"
    and "loads raw = Inl JSONDecodeError"
    and "re_search_braces raw = None"
  shows "fst (generate_topics B loads ps n mn t tr) = Inr (PList [])"
  using assms by (simp add: generate_topics_def call_backend_def Let_def)

text \<open>
  Claim C3 on the code. When the answer of the backend is not JSON but holds an opening
  brace with a closing brace after it, the text between them is decoded outside of any
  \<open>try\<close>: if that text is not JSON either, \<open>generate_topics\<close> raises the parse error instead
  of returning the empty sequence.
\<close>

theorem generate_topics_second_parse_raises:
  assumes "raw = strip (B (requests tr)
             \<lparr>req_model = mn, req_input = topics_prompt ps n, req_temperature = t,
              req_max_output_tokens = 600\<rparr>)"
    and "loads raw = Inl JSONDecodeError"
    and "re_search_braces raw = Some braces"
    and "loads braces = Inl JSONDecodeError"
  shows "fst (generate_topics B loads ps n mn t tr) = Inl JSONDecodeError"
  using assms by (simp add: generate_topics_def call_backend_def Let_def)

theorem generate_topics_second_parse_raises_witness:
  "re_search_braces (str ''Here you go: {oops}'') = Some (str ''{oops}'')
   \<and> fst (generate_topics oops_backend not_json [str ''AI automation''] 4 (str ''gpt-4o-mini'')
          (str ''0.7'') [])
       = Inl JSONDecodeError"
proof -
  have s: "str ''Here you go: {oops}'' = strip (oops_backend (requests [])
      \<lparr>req_model = str ''gpt-4o-mini'', req_input = topics_prompt [str ''AI automation''] 4,
       req_temperature = str ''0.7'', req_max_output_tokens = 600\<rparr>)"
    by (simp add: oops_backend_def strip_def str_def is_space_def)
  have b: "re_search_braces (str ''Here you go: {oops}'') = Some (str ''{oops}'')"
    by (simp add: re_search_braces_def str_def)
  have "fst (generate_topics oops_backend not_json [str ''AI automation''] 4 (str ''gpt-4o-mini'')
          (str ''0.7'') []) = Inl JSONDecodeError"
    using generate_topics_second_parse_raises [of "str ''Here you go: {oops}''" oops_backend "[]"
        "str ''gpt-4o-mini''" "[str ''AI automation'']" 4 "str ''0.7''" not_json "str ''{oops}''"]
      s b
    by (simp add: not_json_def)
  with b show ?thesis by simp
qed


section \<open>Proofs: the order of validation and writing\<close>

lemma backend_calls_only_simps [simp]:
  "backend_calls_only []"
  "backend_calls_only (BackendCall r # steps) = backend_calls_only steps"
  "backend_calls_only (xs @ ys) = (backend_calls_only xs \<and> backend_calls_only ys)"
  by (simp_all add: backend_calls_only_def)

lemma writes_validated_calls:
  "backend_calls_only xs \<Longrightarrow> writes_validated c v (xs @ ys) = writes_validated c v ys"
  by (induction xs) (auto simp: backend_calls_only_def split: step.splits)

lemma failed_check_ends_calls:
  "backend_calls_only xs \<Longrightarrow> failed_check_ends res (xs @ ys) = failed_check_ends res ys"
  by (induction xs) (auto simp: backend_calls_only_def split: step.splits)

lemma calls_keep_order:
  assumes "backend_calls_only xs"
  shows "writes_validated c v xs" and "failed_check_ends res xs"
  using writes_validated_calls [OF assms, of c v "[]"] failed_check_ends_calls [OF assms, of res "[]"]
  by simp_all

lemma writes_validated_append:
  "writes_validated c v xs \<Longrightarrow> (\<And>c' v'. writes_validated c' v' ys)
   \<Longrightarrow> writes_validated c v (xs @ ys)"
  by (induction c v xs rule: writes_validated.induct) simp_all

lemma request_completion_steps:
  "request_completion B cfg prompt tr = (text, tr')
   \<Longrightarrow> \<exists>steps. tr' = tr @ steps \<and> backend_calls_only steps"
  by (auto simp: request_completion_eq)

lemma generate_package_steps:
  assumes "generate_package B U cfg topic audience platform words tone tr = (payload, tr')"
  shows "\<exists>steps. tr' = tr @ steps \<and> backend_calls_only steps"
proof -
  obtain outline tr1 where o:
    "generate_outline B cfg topic audience platform words tone tr = (outline, tr1)"
    by fastforce
  obtain article0 tr2 where a:
    "generate_article B cfg outline topic audience platform words tone tr1 = (article0, tr2)"
    by fastforce
  obtain article1 tr3 where r:
    "(if self_check U article0 \<noteq> [] then revise_article B cfg article0 (self_check U article0) tr2
      else (article0, tr2)) = (article1, tr3)"
    by fastforce
  have t3: "tr' = tr3"
    using assms o a r by (simp add: generate_package_def Let_def split: prod.splits)
  obtain s1 where s1: "tr1 = tr @ s1" "backend_calls_only s1"
    using o request_completion_steps unfolding generate_outline_def by blast
  obtain s2 where s2: "tr2 = tr1 @ s2" "backend_calls_only s2"
    using a request_completion_steps unfolding generate_article_def by blast
  obtain s3 where s3: "tr3 = tr2 @ s3" "backend_calls_only s3"
  proof (cases "self_check U article0 \<noteq> []")
    case True
    with r have "revise_article B cfg article0 (self_check U article0) tr2 = (article1, tr3)"
      by simp
    then obtain s where "tr3 = tr2 @ s" "backend_calls_only s"
      using request_completion_steps unfolding revise_article_def by blast
    then show ?thesis by (rule that)
  next
    case False
    with r have "tr3 = tr2 @ []" by simp
    then show ?thesis by (rule that) simp
  qed
  have "tr' = tr @ (s1 @ s2 @ s3)" and "backend_calls_only (s1 @ s2 @ s3)"
    using t3 s1 s2 s3 by simp_all
  then show ?thesis by blast
qed

text \<open>What the statements after \<open>generate_package\<close> add to the trace, from any state.\<close>

lemma validate_and_write_steps:
  assumes "validate_and_write today topic payload tr = (res, tr')"
  shows "\<exists>steps. tr' = tr @ steps \<and> (\<forall>c v. writes_validated c v steps)
           \<and> failed_check_ends res steps
           \<and> (res = Inr () \<longrightarrow> (\<forall>r. failed_check_ends r steps))"
proof -
  let ?m = "dict_set (dict_set (meta payload) (str ''slug'') (PStr (slugify topic)))
              (str ''date'') (PStr today)"
  show ?thesis
  proof (cases "validate_meta ?m")
    case (Inl e)
    with assms have "tr' = tr @ [RuleCheck ?m]" and "res = Inl e"
      by (simp_all add: validate_and_write_def Let_def)
    with Inl show ?thesis by simp
  next
    case (Inr errors)
    show ?thesis
    proof (cases "errors = []")
      case False
      with Inr assms have "tr' = tr @ [RuleCheck ?m]" and "res = Inl (ValueError errors)"
        by (simp_all add: validate_and_write_def Let_def)
      with Inr False show ?thesis by simp
    next
      case True
      show ?thesis
      proof (cases "validate_meta_schema ?m")
        case (Inl e)
        with Inr True assms have "tr' = tr @ [RuleCheck ?m, SchemaCheck ?m]" and "res = Inl e"
          by (simp_all add: validate_and_write_def Let_def)
        with Inr True Inl show ?thesis by simp
      next
        case ok: (Inr u)
        let ?dir = "get_output_dir (str ''outputs'') topic today"
        from Inr True ok assms
        have "tr' = tr @ [RuleCheck ?m, SchemaCheck ?m, MakeDir ?dir,
            WriteFile (?dir @ [str ''article.md'']) (Text (article payload)),
            WriteFile (?dir @ [str ''social.md'']) (Text (social payload)),
            WriteFile (?dir @ [str ''meta.json'']) (Json ?m)]"
          and "res = Inr ()"
          by (simp_all add: validate_and_write_def Let_def write_outputs_def)
        with Inr True ok show ?thesis by simp
      qed
    qed
  qed
qed

lemma failed_check_ends_append:
  "(\<And>r. failed_check_ends r xs) \<Longrightarrow> failed_check_ends res ys \<Longrightarrow> failed_check_ends res (xs @ ys)"
proof (induction res xs rule: failed_check_ends.induct)
  case (1 res)
  then show ?case by simp
next
  case (2 res m tr)
  have all: "failed_check_ends r (RuleCheck m # tr)" for r
    by (rule "2.prems"(1))
  show ?case
  proof (cases "validate_meta m")
    case (Inl e)
    from all [of "Inl e"] all [of "Inr ()"] Inl show ?thesis by simp
  next
    case (Inr errors)
    show ?thesis
    proof (cases "errors = []")
      case True
      have "failed_check_ends r tr" for r
        using all [of r] Inr True by simp
      with "2.IH" [OF Inr True] "2.prems"(2) Inr True show ?thesis by simp
    next
      case False
      from all [of "Inr ()"] Inr False show ?thesis by simp
    qed
  qed
qed simp_all

lemma run_single_steps:
  assumes "run_single B U cfg today a tr = (res, tr')"
  shows "\<exists>steps. tr' = tr @ steps \<and> (\<forall>c v. writes_validated c v steps)
           \<and> failed_check_ends res steps"
proof -
  obtain payload tr1 where gp: "generate_package B U cfg (arg_topic a) (arg_audience a)
      (arg_platform a) (arg_words a) (arg_tone a) tr = (payload, tr1)"
    by fastforce
  then obtain calls where calls: "tr1 = tr @ calls" "backend_calls_only calls"
    using generate_package_steps by blast
  have "validate_and_write today (arg_topic a) payload tr1 = (res, tr')"
    using assms gp by (simp add: run_single_def)
  then obtain steps where steps: "tr' = tr1 @ steps" "\<forall>c v. writes_validated c v steps"
      "failed_check_ends res steps"
    using validate_and_write_steps by blast
  have "tr' = tr @ (calls @ steps)"
    using calls steps by simp
  moreover have "\<forall>c v. writes_validated c v (calls @ steps)"
    using calls steps by (simp add: writes_validated_calls)
  moreover have "failed_check_ends res (calls @ steps)"
    using calls steps by (simp add: failed_check_ends_calls)
  ultimately show ?thesis by blast
qed

lemma calendar_loop_steps:
  "calendar_loop B U fmt cfg today a items tr = (res, tr')
   \<Longrightarrow> \<exists>steps. tr' = tr @ steps \<and> (\<forall>c v. writes_validated c v steps)
          \<and> failed_check_ends res steps"
proof (induction items arbitrary: tr)
  case Nil
  then show ?case by simp
next
  case (Cons item items)
  show ?case
  proof (cases "\<exists>d topic. item = PDict d
      \<and> dict_get d (str ''title'') (PStr (str ''Untitled topic'')) = PStr topic")
    case True
    then obtain d topic where item: "item = PDict d"
      and title: "dict_get d (str ''title'') (PStr (str ''Untitled topic'')) = PStr topic"
      by blast
    obtain payload tr1 where gp: "generate_package B U cfg topic (arg_audience a)
        (arg_platform a) (arg_words a) (arg_tone a) tr = (payload, tr1)"
      by fastforce
    then obtain calls where calls: "tr1 = tr @ calls" "backend_calls_only calls"
      using generate_package_steps by blast
    obtain r2 tr2 where vw: "validate_and_write today topic payload tr1 = (r2, tr2)"
      by fastforce
    then obtain vsteps where vsteps: "tr2 = tr1 @ vsteps" "\<forall>c v. writes_validated c v vsteps"
        "failed_check_ends r2 vsteps" "r2 = Inr () \<longrightarrow> (\<forall>r. failed_check_ends r vsteps)"
      using validate_and_write_steps by blast
    show ?thesis
    proof (cases r2)
      case (Inl e)
      with Cons.prems item title gp vw have "res = Inl e" and "tr' = tr2"
        by simp_all
      then have "tr' = tr @ (calls @ vsteps)"
        and "\<forall>c v. writes_validated c v (calls @ vsteps)"
        and "failed_check_ends res (calls @ vsteps)"
        using calls vsteps Inl by (simp_all add: writes_validated_calls failed_check_ends_calls)
      then show ?thesis by blast
    next
      case (Inr u)
      with Cons.prems item title gp vw
      have "calendar_loop B U fmt cfg today a items tr2 = (res, tr')"
        by simp
      from Cons.IH [OF this] obtain rest where rest: "tr' = tr2 @ rest"
          "\<forall>c v. writes_validated c v rest" "failed_check_ends res rest"
        by blast
      have clean: "failed_check_ends r vsteps" for r
        using vsteps(4) Inr by simp
      have "tr' = tr @ (calls @ vsteps @ rest)"
        using calls vsteps rest by simp
      moreover have "\<forall>c v. writes_validated c v (calls @ vsteps @ rest)"
        using calls vsteps rest by (simp add: writes_validated_calls writes_validated_append)
      moreover have "failed_check_ends res (calls @ vsteps @ rest)"
        using calls clean rest by (simp add: failed_check_ends_calls failed_check_ends_append)
      ultimately show ?thesis by blast
    qed
  next
    case False
    show ?thesis
    proof (cases "\<exists>d. item = PDict d")
      case True
      then obtain d where item: "item = PDict d" by blast
      let ?t = "dict_get d (str ''title'') (PStr (str ''Untitled topic''))"
      have not_str: "\<forall>topic. ?t \<noteq> PStr topic"
        using False item by simp
      obtain payload tr1 where gp: "generate_package B U cfg (fmt ?t) (arg_audience a)
          (arg_platform a) (arg_words a) (arg_tone a) tr = (payload, tr1)"
        by fastforce
      then obtain calls where calls: "tr1 = tr @ calls" "backend_calls_only calls"
        using generate_package_steps by blast
      have "res = Inl TypeError \<and> tr' = tr1"
        using Cons.prems item not_str gp by (cases ?t) simp_all
      then have "tr' = tr @ calls"
        and "\<forall>c v. writes_validated c v calls"
        and "failed_check_ends res calls"
        using calls by (simp_all add: calls_keep_order)
      then show ?thesis by blast
    next
      case False
      then have "res = Inl AttributeError \<and> tr' = tr"
        using Cons.prems by (cases item) simp_all
      then show ?thesis by simp
    qed
  qed
qed

lemma generate_topics_steps:
  assumes "generate_topics B loads ps n mn t tr = (res, tr')"
  shows "\<exists>steps. tr' = tr @ steps \<and> backend_calls_only steps"
proof -
  have "tr' = tr @ [BackendCall \<lparr>req_model = mn, req_input = topics_prompt ps n,
      req_temperature = t, req_max_output_tokens = 600\<rparr>]"
    using assms
    by (auto simp: generate_topics_def call_backend_def Let_def
        split: sum.splits pyerror.splits option.splits)
  then show ?thesis by simp
qed

lemma run_calendar_steps:
  assumes "run_calendar B U loads fmt cfg today a tr = (res, tr')"
  shows "\<exists>steps. tr' = tr @ steps \<and> (\<forall>c v. writes_validated c v steps)
           \<and> failed_check_ends res steps"
proof -
  obtain r1 tr1 where gt: "generate_topics B loads (pillars cfg) (arg_count a)
      (model (generation cfg)) (temperature (generation cfg)) tr = (r1, tr1)"
    by fastforce
  then obtain calls where calls: "tr1 = tr @ calls" "backend_calls_only calls"
    using generate_topics_steps by blast
  have stop: "\<exists>steps. tr1 = tr @ steps \<and> (\<forall>c v. writes_validated c v steps)
      \<and> failed_check_ends r steps" for r
  proof -
    have "tr1 = tr @ calls" and "\<forall>c v. writes_validated c v calls"
      and "failed_check_ends r calls"
      using calls by (simp_all add: calls_keep_order)
    then show ?thesis by blast
  qed
  show ?thesis
  proof (cases r1)
    case (Inl e)
    with assms gt have "res = Inl e" and "tr' = tr1"
      by (simp_all add: run_calendar_def)
    with stop show ?thesis by simp
  next
    case (Inr topics)
    show ?thesis
    proof (cases "py_iter topics")
      case (Inl e)
      with assms gt Inr have "res = Inl e" and "tr' = tr1"
        by (simp_all add: run_calendar_def)
      with stop show ?thesis by simp
    next
      case items: (Inr items)
      with assms gt Inr have "calendar_loop B U fmt cfg today a items tr1 = (res, tr')"
        by (simp add: run_calendar_def)
      then obtain rest where rest: "tr' = tr1 @ rest" "\<forall>c v. writes_validated c v rest"
          "failed_check_ends res rest"
        using calendar_loop_steps by blast
      have "tr' = tr @ (calls @ rest)"
        and "\<forall>c v. writes_validated c v (calls @ rest)"
        and "failed_check_ends res (calls @ rest)"
        using calls rest by (simp_all add: writes_validated_calls failed_check_ends_calls)
      then show ?thesis by blast
    qed
  qed
qed

text \<open>What the order of the trace means for the objects that are written.\<close>

lemma writes_validated_sound:
  assumes "writes_validated c v steps"
    and "\<forall>x\<in>set c. validate_meta x = Inr []"
    and "\<forall>x\<in>set v. validate_meta x = Inr [] \<and> validate_meta_schema x = Inr ()"
    and "WriteFile p (Json m) \<in> set steps"
  shows "validate_meta m = Inr [] \<and> validate_meta_schema m = Inr ()"
  using assms
proof (induction c v steps rule: writes_validated.induct)
  case (1 c v)
  then show ?case by simp
next
  case (2 c v x tr)
  let ?c = "if validate_meta x = Inr [] then x # c else c"
  have "writes_validated ?c v tr"
    using "2.prems"(1) by simp
  moreover have "\<forall>y\<in>set ?c. validate_meta y = Inr []"
    using "2.prems"(2) by simp
  moreover have "WriteFile p (Json m) \<in> set tr"
    using "2.prems"(4) by simp
  ultimately show ?case
    using "2.IH" "2.prems"(3) by blast
next
  case (3 c v x tr)
  let ?v = "if validate_meta_schema x = Inr () then x # v else v"
  have x: "x \<in> set c" and "writes_validated c ?v tr"
    using "3.prems"(1) by simp_all
  moreover have "\<forall>y\<in>set ?v. validate_meta y = Inr [] \<and> validate_meta_schema y = Inr ()"
    using "3.prems"(2,3) x by simp
  moreover have "WriteFile p (Json m) \<in> set tr"
    using "3.prems"(4) by simp
  ultimately show ?case
    using "3.IH" "3.prems"(2) by blast
next
  case (4 c v q x tr)
  show ?case
  proof (cases "x = m")
    case True
    with "4.prems"(1,3) show ?thesis by simp
  next
    case False
    with "4.prems" have "writes_validated c v tr" and "WriteFile p (Json m) \<in> set tr"
      by simp_all
    with "4.IH" "4.prems"(2,3) show ?thesis by blast
  qed
qed simp_all

text \<open>
  Claim C8. In the steps that \<open>run_single\<close> and \<open>run_calendar\<close> add to the trace, every
  schema validation of a meta object comes after a rule check of that object that
  returned the empty list, and every meta object written to disk has passed the schema
  validation before; so each object written has passed both. A rule check that returns
  errors is the last step of the run, which ends there with \<open>ValueError\<close>: no schema
  validation and no write follows it.
\<close>

theorem validation_precedes_persistence:
  "(run_single B U cfg today a tr = (res, tr') \<longrightarrow>
      (\<exists>steps. tr' = tr @ steps \<and> writes_validated [] [] steps \<and> failed_check_ends res steps
         \<and> (\<forall>p m. WriteFile p (Json m) \<in> set steps \<longrightarrow>
                validate_meta m = Inr [] \<and> validate_meta_schema m = Inr ())))
   \<and> (run_calendar B U loads fmt cfg today a tr = (res, tr') \<longrightarrow>
      (\<exists>steps. tr' = tr @ steps \<and> writes_validated [] [] steps \<and> failed_check_ends res steps
         \<and> (\<forall>p m. WriteFile p (Json m) \<in> set steps \<longrightarrow>
                validate_meta m = Inr [] \<and> validate_meta_schema m = Inr ())))"
proof -
  have sound: "\<forall>p m. WriteFile p (Json m) \<in> set steps \<longrightarrow>
      validate_meta m = Inr [] \<and> validate_meta_schema m = Inr ()"
    if "writes_validated [] [] steps" for steps
    using writes_validated_sound [OF that] by simp
  have single: "\<exists>steps. tr' = tr @ steps \<and> writes_validated [] [] steps
      \<and> failed_check_ends res steps
      \<and> (\<forall>p m. WriteFile p (Json m) \<in> set steps \<longrightarrow>
            validate_meta m = Inr [] \<and> validate_meta_schema m = Inr ())"
    if "run_single B U cfg today a tr = (res, tr')"
  proof -
    from run_single_steps [OF that] obtain steps where
      "tr' = tr @ steps" "\<forall>c v. writes_validated c v steps" "failed_check_ends res steps"
      by blast
    then show ?thesis using sound [of steps] by blast
  qed
  have calendar: "\<exists>steps. tr' = tr @ steps \<and> writes_validated [] [] steps
      \<and> failed_check_ends res steps
      \<and> (\<forall>p m. WriteFile p (Json m) \<in> set steps \<longrightarrow>
            validate_meta m = Inr [] \<and> validate_meta_schema m = Inr ())"
    if "run_calendar B U loads fmt cfg today a tr = (res, tr')"
  proof -
    from run_calendar_steps [OF that] obtain steps where
      "tr' = tr @ steps" "\<forall>c v. writes_validated c v steps" "failed_check_ends res steps"
      by blast
    then show ?thesis using sound [of steps] by blast
  qed
  from single calendar show ?thesis by blast
qed

lemma draft_run_fails:
  "fst (run_single draft_backend ascii_only sample_config (str ''2024-01-02'') sample_args [])
     = Inl (ValueError [str ''Description must be 155-160 characters.''])"
proof -
  let ?gp = "generate_package draft_backend ascii_only sample_config (arg_topic sample_args)
      (arg_audience sample_args) (arg_platform sample_args) (arg_words sample_args)
      (arg_tone sample_args) []"
  have gp: "?gp = (fst ?gp, snd ?gp)"
    by simp
  have art: "article (fst ?gp) = str ''A revised draft.''"
    by (rule draft_backend_article)
  have ex: "extract_meta (str ''A revised draft.'') = ([], [])"
    by (simp add: extract_meta_def str_def)
  have m: "meta (fst ?gp) =
      [(str ''title'', PStr (arg_topic sample_args)),
       (str ''keywords'', PList (map PStr fallback_keywords)),
       (str ''description'', PStr []),
       (str ''platform'', PStr (arg_platform sample_args)),
       (str ''slug'', PStr [])]"
    using generate_package_meta(1) [OF gp] art ex by simp
  have topic: "arg_topic sample_args \<noteq> []"
    by (simp add: sample_args_def str_def)
  have "fst (validate_and_write (str ''2024-01-02'') (arg_topic sample_args) (fst ?gp) (snd ?gp))
      = Inl (ValueError [str ''Description must be 155-160 characters.''])"
    using meta_keys_distinct topic
    by (simp add: validate_and_write_def Let_def m validate_meta_def dict_get_def
        fallback_keywords_def)
  then show ?thesis
    by (simp add: run_single_def case_prod_beta)
qed

theorem validation_precedes_persistence_witness:
  "fst (run_single draft_backend ascii_only sample_config (str ''2024-01-02'') sample_args [])
     = Inl (ValueError [str ''Description must be 155-160 characters.''])
   \<and> writes_validated [] []
        (snd (run_single draft_backend ascii_only sample_config (str ''2024-01-02'') sample_args []))
   \<and> failed_check_ends
        (fst (run_single draft_backend ascii_only sample_config (str ''2024-01-02'') sample_args []))
        (snd (run_single draft_backend ascii_only sample_config (str ''2024-01-02'') sample_args []))"
proof -
  let ?run = "run_single draft_backend ascii_only sample_config (str ''2024-01-02'') sample_args []"
  have "?run = (fst ?run, snd ?run)"
    by simp
  with validation_precedes_persistence [of draft_backend ascii_only sample_config
      "str ''2024-01-02''" sample_args "[]" "fst ?run" "snd ?run"]
  have "writes_validated [] [] (snd ?run) \<and> failed_check_ends (fst ?run) (snd ?run)"
    by auto
  with draft_run_fails show ?thesis by simp
qed


end
